theory Spec2Isabelle
  imports Main
begin

section \<open>Python strings\<close>

text \<open>
  A Python \<open>str\<close> is modelled as a \<open>string\<close>; a character stands for the code point
  of the same number (code points above 255 are outside the model).  The helpers below
  are the \<open>str\<close> methods the services call.
\<close>

text \<open>\<open>str.isspace\<close> on one character, for the code points below 256.\<close>

definition is_space :: "char \<Rightarrow> bool" where
  "is_space c =
     (let n = (of_char c :: nat)
      in (9 \<le> n \<and> n \<le> 13) \<or> (28 \<le> n \<and> n \<le> 32) \<or> n = 133 \<or> n = 160)"

text \<open>\<open>s.strip()\<close>\<close>

definition strip :: "string \<Rightarrow> string" where
  "strip s = rev (dropWhile is_space (rev (dropWhile is_space s)))"

text \<open>\<open>s.startswith(p)\<close>\<close>

definition startswith :: "string \<Rightarrow> string \<Rightarrow> bool" where
  "startswith s p = (take (length p) s = p)"

text \<open>\<open>s.split(sep)\<close> for a one-character separator: never an empty list.\<close>

fun split_on :: "char \<Rightarrow> string \<Rightarrow> string list" where
  "split_on sep [] = [[]]"
| "split_on sep (c # cs) =
     (if c = sep then [] # split_on sep cs
      else (case split_on sep cs of
              [] \<Rightarrow> [[c]]
            | l # ls \<Rightarrow> (c # l) # ls))"

text \<open>\<open>sep.join(xs)\<close>\<close>

fun join :: "string \<Rightarrow> string list \<Rightarrow> string" where
  "join sep [] = []"
| "join sep [x] = x"
| "join sep (x # y # ys) = x @ sep @ join sep (y # ys)"

text \<open>\<open>str(n)\<close> for a non-negative integer.\<close>

definition digit_char :: "nat \<Rightarrow> char" where
  "digit_char d = char_of (48 + d)"

fun str_nat :: "nat \<Rightarrow> string" where
  "str_nat n = (if n < 10 then [digit_char n] else str_nat (n div 10) @ [digit_char (n mod 10)])"

declare str_nat.simps [simp del]

text \<open>\<open>str(i)\<close> for an integer.\<close>

definition str_int :: "int \<Rightarrow> string" where
  "str_int i = (if i < 0 then CHR ''-'' # str_nat (nat (- i)) else str_nat (nat i))"

section \<open>The oracle's reply parser (\<open>AIService._parse_generated_code\<close>)\<close>

record generated =
  backend_code :: string
  frontend_code :: string
  explanation :: string

datatype section_tag = Backend | Frontend | Explanation

text \<open>
  The loop state: the \<open>result\<close> dictionary, \<open>current_section\<close> (\<open>None\<close> before the
  first header) and \<open>current_code\<close>.
\<close>

record parse_state =
  result :: generated
  current_section :: "section_tag option"
  current_code :: "string list"

text \<open>One iteration of \<open>for line in lines\<close>: the branches in the order of the source.\<close>

definition parse_line :: "parse_state \<Rightarrow> string \<Rightarrow> parse_state" where
  "parse_line st line =
     (if strip line = ''## Backend Code'' then
        st\<lparr>current_section := Some Backend, current_code := []\<rparr>
      else if strip line = ''## Frontend Code'' then
        st\<lparr>current_section := Some Frontend, current_code := []\<rparr>
      else if strip line = ''## Explanation'' then
        st\<lparr>current_section := Some Explanation, current_code := []\<rparr>
      else if startswith (strip line) ''```'' then
        (if current_code st \<noteq> [] \<and> current_section st \<noteq> None then
           (let code_content = join [CHR 0x0A] (current_code st)
            in if current_section st = Some Backend then
                 st\<lparr>result := (result st)\<lparr>backend_code := code_content\<rparr>, current_code := []\<rparr>
               else if current_section st = Some Frontend then
                 st\<lparr>result := (result st)\<lparr>frontend_code := code_content\<rparr>, current_code := []\<rparr>
               else st\<lparr>current_code := []\<rparr>)
         else st\<lparr>current_code := []\<rparr>)
      else if current_section st = Some Explanation then
        st\<lparr>current_code := current_code st @ [line]\<rparr>
      else if current_section st \<noteq> None \<and> \<not> startswith (strip line) ''```'' then
        st\<lparr>current_code := current_code st @ [line]\<rparr>
      else st)"

definition initial_parse_state :: parse_state where
  "initial_parse_state =
     \<lparr>result = \<lparr>backend_code = [], frontend_code = [], explanation = []\<rparr>,
      current_section = None, current_code = []\<rparr>"

definition parse_generated_code :: "string \<Rightarrow> generated" where
  "parse_generated_code content =
     (let st = foldl parse_line initial_parse_state (split_on (CHR 0x0A) content)
      in if current_section st = Some Explanation \<and> current_code st \<noteq> [] then
           (result st)\<lparr>explanation := strip (join [CHR 0x0A] (current_code st))\<rparr>
         else result st)"

text \<open>A labelled section is present when some line, stripped, is its header.\<close>

definition has_section :: "string \<Rightarrow> string \<Rightarrow> bool" where
  "has_section header content =
     list_ex (\<lambda>line. strip line = header) (split_on (CHR 0x0A) content)"

section \<open>The import guard written into every artifact (\<open>ExecutionService._wrap_code\<close>)\<close>

datatype py_error = ImportError string | OtherError string

datatype module = Module string

definition ALLOWED_PACKAGES :: "string list" where
  "ALLOWED_PACKAGES =
     [''requests'', ''httpx'', ''beautifulsoup4'', ''bs4'', ''pandas'', ''numpy'',
      ''dateutil'', ''jmespath'', ''json'', ''datetime'', ''time'', ''urllib'', ''re'',
      ''math'', ''statistics'', ''collections'', ''itertools'', ''functools'',
      ''typing'', ''asyncio'', ''aiohttp'']"

text \<open>\<open>name.split('.')[0]\<close>\<close>

definition base_name_of :: "string \<Rightarrow> string" where
  "base_name_of name = hd (split_on (CHR ''.'') name)"

text \<open>
  \<open>restricted_import\<close>, with the interpreter's own \<open>__import__\<close> as a parameter: it
  returns the module or raises.  Only \<open>ImportError\<close> is caught by the guard.
\<close>

definition restricted_import :: "(string \<Rightarrow> py_error + module) \<Rightarrow> string \<Rightarrow> py_error + module" where
  "restricted_import original_import name =
     (let base_name = base_name_of name
      in if base_name \<notin> set ALLOWED_PACKAGES \<and> \<not> startswith base_name ''_'' then
           (case original_import name of
              Inr m \<Rightarrow> Inr m
            | Inl (ImportError _) \<Rightarrow> Inl (ImportError (''Package '' @ [CHR 0x27] @ name @ [CHR 0x27] @ '' is not allowed''))
            | Inl e \<Rightarrow> Inl e)
         else original_import name)"

text \<open>
  An interpreter on which the standard library module \<open>subprocess\<close> is installed, as on
  every CPython; any other name is reported missing.
\<close>

definition cpython_import :: "string \<Rightarrow> py_error + module" where
  "cpython_import name =
     (if name = ''subprocess'' then Inr (Module name)
      else Inl (ImportError (''No module named '' @ [CHR 0x27] @ name @ [CHR 0x27])))"

section \<open>The version store (\<open>models/block.py\<close>)\<close>

text \<open>
  JSON values are opaque.  Identifiers and version numbers are natural numbers.  A
  table is the list of its rows in insertion order, and the database stores every
  value it is given.  A title is a list of code points, because \<open>str.title()\<close> can
  leave the characters of the model.

  A time is a whole number of seconds since 1970-01-01 00:00:00.  An operation reads
  the clock once: \<open>now\<close> stands for every \<open>datetime.utcnow()\<close> of the operation and
  for the \<open>func.now()\<close> of every row it writes.  \<open>created_at\<close>, \<open>fetched_at\<close> and
  \<open>updated_at\<close> are filled by the database when a row is inserted;
  \<open>Block.updated_at\<close> is also set by every \<open>UPDATE\<close> of a block that gives it no
  value (\<open>onupdate=func.now()\<close>).
\<close>

type_synonym json = string

record block =
  block_id :: nat
  user_prompt :: string
  title :: "nat list"
  current_version :: nat
  refresh_interval :: int
  layout_data :: "(string \<times> json) list"
  status :: string
  updated_at :: int

record block_version =
  bv_block_id :: nat
  bv_version :: nat
  bv_backend_code :: string
  bv_frontend_code :: string
  ai_explanation :: string
  bv_status :: string

record block_data =
  bd_block_id :: nat
  bd_data :: json
  fetched_at :: int
  expires_at :: "int option"

record execution_log =
  el_block_id :: nat
  el_version :: nat
  execution_type :: string
  success :: bool
  error_message :: "string option"
  created_at :: int

text \<open>
  The state the services act on: the four tables, the artifact directories on disk
  (block id, version), and the history of the calls that left the process: every
  Executor run (block id, version, whether it succeeded), the children abandoned while
  still running, the number of oracle requests sent, and the heal attempts started by
  \<open>refresh_block_data\<close> (block id, time).  No operation reads the history fields
  except to pick the next reply of the environment.
\<close>

record world =
  blocks :: "block list"
  versions :: "block_version list"
  data_cache :: "block_data list"
  logs :: "execution_log list"
  dirs :: "(nat \<times> nat) list"
  exec_history :: "(nat \<times> nat \<times> bool) list"
  orphans :: "(nat \<times> nat) list"
  oracle_calls :: nat
  auto_heals :: "(nat \<times> int) list"

definition empty_world :: world where
  "empty_world =
     \<lparr>blocks = [], versions = [], data_cache = [], logs = [], dirs = [],
      exec_history = [], orphans = [], oracle_calls = 0, auto_heals = []\<rparr>"

text \<open>
  What the services do not decide: the \<open>n\<close>-th reply of the oracle (an error or the
  reply text), what \<open>wait_for(process.communicate(), 30)\<close> yields for the \<open>n\<close>-th
  child, and \<open>json.loads\<close>.
\<close>

datatype comm_result =
    Exited int string string
  | TimedOut
  | Failed string

record env =
  oracle_reply :: "nat \<Rightarrow> string + string"
  child_run :: "nat \<Rightarrow> comm_result"
  json_loads :: "string \<Rightarrow> json option"

datatype exn = ValueError string | OverflowError string | Exception string

text \<open>\<open>str(e)\<close>\<close>

fun str_exn :: "exn \<Rightarrow> string" where
  "str_exn (ValueError m) = m"
| "str_exn (OverflowError m) = m"
| "str_exn (Exception m) = m"

subsection \<open>Times (\<open>datetime\<close>)\<close>

text \<open>
  \<open>timedelta(seconds=n)\<close> keeps \<open>n div 86400\<close> days, which must fit a C \<open>int\<close> and
  have a magnitude of at most 999999999.  A \<open>datetime\<close> lies between 0001-01-01
  00:00:00 and 9999-12-31 23:59:59.999999, and \<open>t + delta\<close> raises when the sum does
  not.  The messages are those of CPython's \<open>datetime\<close> module.
\<close>

definition timedelta :: "int \<Rightarrow> exn + int" where
  "timedelta seconds =
     (let days = seconds div 86400
      in if days < - 2147483648 \<or> 2147483647 < days then
           Inl (OverflowError ''Python int too large to convert to C int'')
         else if days < - 999999999 \<or> 999999999 < days then
           Inl (OverflowError (''days='' @ str_int days @ ''; must have magnitude <= 999999999''))
         else Inr seconds)"

definition datetime_add :: "int \<Rightarrow> int \<Rightarrow> exn + int" where
  "datetime_add t delta =
     (if t + delta < - 62135596800 \<or> 253402300799 < t + delta then
        Inl (OverflowError ''date value out of range'')
      else Inr (t + delta))"

text \<open>\<open>t + timedelta(seconds=n)\<close>\<close>

definition plus_seconds :: "int \<Rightarrow> int \<Rightarrow> exn + int" where
  "plus_seconds t n =
     (case timedelta n of
        Inl e \<Rightarrow> Inl e
      | Inr delta \<Rightarrow> datetime_add t delta)"

subsection \<open>Queries\<close>

text \<open>\<open>db.query(Block).filter(Block.id == block_id).first()\<close>\<close>

definition find_block :: "world \<Rightarrow> nat \<Rightarrow> block option" where
  "find_block w bid = find (\<lambda>b. block_id b = bid) (blocks w)"

definition find_version :: "world \<Rightarrow> nat \<Rightarrow> nat \<Rightarrow> block_version option" where
  "find_version w bid ver =
     find (\<lambda>v. bv_block_id v = bid \<and> bv_version v = ver) (versions w)"

text \<open>
  \<open>order_by(key.desc()).first()\<close>: a row with the greatest key, the earliest inserted
  among equals.
\<close>

fun latest_by :: "('a \<Rightarrow> int) \<Rightarrow> 'a list \<Rightarrow> 'a option" where
  "latest_by key [] = None"
| "latest_by key (x # xs) =
     (case latest_by key xs of
        None \<Rightarrow> Some x
      | Some y \<Rightarrow> if key x < key y then Some y else Some x)"

definition latest_error :: "world \<Rightarrow> nat \<Rightarrow> execution_log option" where
  "latest_error w bid =
     latest_by created_at (filter (\<lambda>l. el_block_id l = bid \<and> \<not> success l) (logs w))"

definition latest_cached :: "world \<Rightarrow> nat \<Rightarrow> block_data option" where
  "latest_cached w bid =
     latest_by fetched_at (filter (\<lambda>d. bd_block_id d = bid) (data_cache w))"

text \<open>The failure logs of a block created within the last hour.\<close>

definition recent_errors :: "world \<Rightarrow> nat \<Rightarrow> int \<Rightarrow> nat" where
  "recent_errors w bid now =
     length (filter (\<lambda>l. el_block_id l = bid \<and> \<not> success l \<and> now - 3600 < created_at l)
               (logs w))"

text \<open>The key of the next inserted block: one more than the greatest key in use.\<close>

definition next_block_id :: "world \<Rightarrow> nat" where
  "next_block_id w = Suc (foldr max (map block_id (blocks w)) 0)"

text \<open>Writing back a changed block: the row with its key is replaced.\<close>

definition update_block_row :: "block \<Rightarrow> world \<Rightarrow> world" where
  "update_block_row b w =
     w\<lparr>blocks := map (\<lambda>x. if block_id x = block_id b then b else x) (blocks w)\<rparr>"

definition fail_log :: "nat \<Rightarrow> nat \<Rightarrow> string \<Rightarrow> exn \<Rightarrow> int \<Rightarrow> execution_log" where
  "fail_log bid ver kind e now =
     \<lparr>el_block_id = bid, el_version = ver, execution_type = kind, success = False,
      error_message = Some (str_exn e), created_at = now\<rparr>"

definition ok_log :: "nat \<Rightarrow> nat \<Rightarrow> string \<Rightarrow> int \<Rightarrow> execution_log" where
  "ok_log bid ver kind now =
     \<lparr>el_block_id = bid, el_version = ver, execution_type = kind, success = True,
      error_message = None, created_at = now\<rparr>"

section \<open>The oracle client (\<open>AIService\<close>)\<close>

definition generate_block_code :: "env \<Rightarrow> world \<Rightarrow> (exn + generated) \<times> world" where
  "generate_block_code env w =
     (case oracle_reply env (oracle_calls w) of
        Inl m \<Rightarrow> Inl (Exception (''AI code generation failed: '' @ m))
      | Inr content \<Rightarrow> Inr (parse_generated_code content),
      w\<lparr>oracle_calls := Suc (oracle_calls w)\<rparr>)"

definition ai_heal_block :: "env \<Rightarrow> world \<Rightarrow> (exn + generated) \<times> world" where
  "ai_heal_block env w =
     (case oracle_reply env (oracle_calls w) of
        Inl m \<Rightarrow> Inl (Exception (''AI healing failed: '' @ m))
      | Inr content \<Rightarrow> Inr (parse_generated_code content),
      w\<lparr>oracle_calls := Suc (oracle_calls w)\<rparr>)"

section \<open>The Executor (\<open>ExecutionService\<close>)\<close>

text \<open>
  \<open>execute_block\<close>: the version directory is created if it is missing, the child is
  spawned and awaited for 30 seconds, and the outcome is classified (\<open>classify_run\<close>,
  the body of the \<open>try\<close> with its two handlers).  A timeout is caught by the first
  handler; every other exception raised in the \<open>try\<close>, the two the body raises itself
  included, is caught by the second and wrapped.  The source sends the child no
  signal: after a timeout it is left running.
\<close>

definition classify_run :: "env \<Rightarrow> comm_result \<Rightarrow> exn + json" where
  "classify_run env run =
     (case run of
        TimedOut \<Rightarrow> Inl (Exception ''Block execution timed out'')
      | Failed m \<Rightarrow> Inl (Exception (''Execution error: '' @ m))
      | Exited returncode out err \<Rightarrow>
          if returncode \<noteq> 0 then
            Inl (Exception (''Execution error: '' @ ''Block execution failed: '' @
                   (if err \<noteq> [] then err else ''Unknown execution error'')))
          else
            (case json_loads env out of
               Some j \<Rightarrow> Inr j
             | None \<Rightarrow> Inl (Exception (''Execution error: '' @ ''Block did not return valid JSON''))))"

definition execute_block :: "env \<Rightarrow> world \<Rightarrow> nat \<Rightarrow> nat \<Rightarrow> string \<Rightarrow> (exn + json) \<times> world" where
  "execute_block env w bid ver code =
     (let run = child_run env (length (exec_history w));
          res = classify_run env run
      in (res,
          w\<lparr>dirs := (if (bid, ver) \<in> set (dirs w) then dirs w else dirs w @ [(bid, ver)]),
            exec_history := exec_history w @ [(bid, ver, \<not> isl res)],
            orphans := (if run = TimedOut then orphans w @ [(bid, ver)] else orphans w)\<rparr>))"

text \<open>
  \<open>cleanup_old_versions\<close>: the version directories of the block, highest number first;
  all but the first \<open>keep_versions\<close> are removed, and a removal that fails is passed over.
  \<open>rmtree_ok\<close> tells which removals succeed.  No function of the repository calls it.
\<close>

definition cleanup_old_versions :: "(nat \<Rightarrow> nat \<Rightarrow> bool) \<Rightarrow> world \<Rightarrow> nat \<Rightarrow> nat \<Rightarrow> world" where
  "cleanup_old_versions rmtree_ok w bid keep_versions =
     (let version_dirs = rev (sort (map snd (filter (\<lambda>d. fst d = bid) (dirs w))));
          to_remove = drop keep_versions version_dirs
      in w\<lparr>dirs := filter (\<lambda>d. \<not> (fst d = bid \<and> snd d \<in> set to_remove \<and> rmtree_ok bid (snd d)))
                     (dirs w)\<rparr>)"

section \<open>The lifecycle orchestrator (\<open>BlockService\<close>)\<close>

text \<open>\<open>s.split()\<close>: the maximal runs of characters that are not whitespace.\<close>

fun split_ws :: "string \<Rightarrow> string \<Rightarrow> string list" where
  "split_ws word [] = (if word = [] then [] else [word])"
| "split_ws word (c # cs) =
     (if is_space c then (if word = [] then split_ws [] cs else word # split_ws [] cs)
      else split_ws (word @ [c]) cs)"

text \<open>
  \<open>s.title()\<close> on the code points below 256.  A character that follows a cased one
  is lowered, any other is given its title case; the title case of the micro sign and
  of \<open>y\<close> with diaeresis lies above 255 and that of the sharp \<open>s\<close> is \<open>Ss\<close>.
\<close>

definition is_cased :: "nat \<Rightarrow> bool" where
  "is_cased n =
     ((65 \<le> n \<and> n \<le> 90) \<or> (97 \<le> n \<and> n \<le> 122) \<or> n = 170 \<or> n = 181 \<or> n = 186 \<or>
      (192 \<le> n \<and> n \<le> 214) \<or> (216 \<le> n \<and> n \<le> 246) \<or> (248 \<le> n \<and> n \<le> 255))"

definition to_lower :: "nat \<Rightarrow> nat" where
  "to_lower n =
     (if (65 \<le> n \<and> n \<le> 90) \<or> (192 \<le> n \<and> n \<le> 214) \<or> (216 \<le> n \<and> n \<le> 222)
      then n + 32 else n)"

definition to_title :: "nat \<Rightarrow> nat list" where
  "to_title n =
     (if (97 \<le> n \<and> n \<le> 122) \<or> (224 \<le> n \<and> n \<le> 246) \<or> (248 \<le> n \<and> n \<le> 254)
      then [n - 32]
      else if n = 181 then [924]
      else if n = 223 then [83, 115]
      else if n = 255 then [376]
      else [n])"

fun title_from :: "bool \<Rightarrow> string \<Rightarrow> nat list" where
  "title_from previous_is_cased [] = []"
| "title_from previous_is_cased (c # cs) =
     (if previous_is_cased then [to_lower (of_char c)] else to_title (of_char c)) @
     title_from (is_cased (of_char c)) cs"

definition generate_title :: "string \<Rightarrow> nat list" where
  "generate_title prompt =
     (let words = take 4 (split_ws [] (strip prompt))
      in title_from False (join '' '' words))"

definition default_layout :: "(string \<times> json) list" where
  "default_layout = [(''x'', ''0''), (''y'', ''0''), (''w'', ''6''), (''h'', ''4'')]"

text \<open>
  \<open>create_block\<close>.  The oracle is asked first: if it raises, nothing was added.  The
  block and its version 1 are committed whatever the Executor says.
\<close>

definition create_block ::
  "env \<Rightarrow> int \<Rightarrow> world \<Rightarrow> string \<Rightarrow> string option \<Rightarrow> int \<Rightarrow> (exn + block) \<times> world" where
  "create_block env now w prompt title_arg interval =
     (case generate_block_code env w of
        (Inl e, w1) \<Rightarrow> (Inl e, w1)
      | (Inr generated_code, w1) \<Rightarrow>
          (let bid = next_block_id w1;
               block = \<lparr>block_id = bid, user_prompt = prompt,
                        title = (case title_arg of
                                   None \<Rightarrow> generate_title prompt
                                 | Some t \<Rightarrow> if t = [] then generate_title prompt
                                             else map of_char t),
                        current_version = 1, refresh_interval = interval,
                        layout_data = default_layout, status = ''active'', updated_at = now\<rparr>;
               version = \<lparr>bv_block_id = bid, bv_version = 1,
                          bv_backend_code = backend_code generated_code,
                          bv_frontend_code = frontend_code generated_code,
                          ai_explanation = explanation generated_code,
                          bv_status = ''active''\<rparr>;
               w2 = w1\<lparr>blocks := blocks w1 @ [block], versions := versions w1 @ [version]\<rparr>
           in (case execute_block env w2 bid 1 (backend_code generated_code) of
                 (Inr _, w3) \<Rightarrow>
                   (let block' = block\<lparr>status := ''active''\<rparr>
                    in (Inr block', update_block_row block' w3))
               | (Inl e, w3) \<Rightarrow>
                   (let block' = block\<lparr>status := ''error''\<rparr>
                    in (Inr block',
                        update_block_row block'
                          (w3\<lparr>logs := logs w3 @ [fail_log bid 1 ''fetch'' e now]\<rparr>))))))"

text \<open>
  \<open>update_block\<close>.  The new version is numbered \<open>current_version + 1\<close>; its row is
  committed whatever the Executor says.
\<close>

definition update_block :: "env \<Rightarrow> int \<Rightarrow> world \<Rightarrow> nat \<Rightarrow> string \<Rightarrow> (exn + block) \<times> world" where
  "update_block env now w bid prompt =
     (case find_block w bid of
        None \<Rightarrow> (Inl (ValueError (''Block '' @ str_nat bid @ '' not found'')), w)
      | Some block \<Rightarrow>
          (case generate_block_code env w of
             (Inl e, w1) \<Rightarrow> (Inl e, w1)
           | (Inr generated_code, w1) \<Rightarrow>
               (let new_version = current_version block + 1;
                    version = \<lparr>bv_block_id = block_id block, bv_version = new_version,
                               bv_backend_code = backend_code generated_code,
                               bv_frontend_code = frontend_code generated_code,
                               ai_explanation = explanation generated_code,
                               bv_status = ''active''\<rparr>;
                    w2 = w1\<lparr>versions := versions w1 @ [version]\<rparr>
                in (case execute_block env w2 (block_id block) new_version
                           (backend_code generated_code) of
                      (Inr _, w3) \<Rightarrow>
                        (let block' = block\<lparr>current_version := new_version, status := ''active'',
                                            updated_at := now\<rparr>
                         in (Inr block', update_block_row block' w3))
                    | (Inl e, w3) \<Rightarrow>
                        (let block' = block\<lparr>status := ''error'', updated_at := now\<rparr>
                         in (Inr block',
                             update_block_row block'
                               (w3\<lparr>logs := logs w3 @
                                     [fail_log (block_id block) new_version ''fetch'' e now]\<rparr>)))))))"

text \<open>
  \<open>heal_block\<close>.  The two \<open>ValueError\<close>s are raised before the \<open>try\<close>; inside it, a
  failure of the oracle or of the Executor ends in the handler, which logs against
  \<open>block.current_version\<close>, not yet assigned.
\<close>

definition heal_block :: "env \<Rightarrow> int \<Rightarrow> world \<Rightarrow> nat \<Rightarrow> (exn + block) \<times> world" where
  "heal_block env now w bid =
     (case find_block w bid of
        None \<Rightarrow> (Inl (ValueError (''Block '' @ str_nat bid @ '' not found'')), w)
      | Some block \<Rightarrow>
          (case (find_version w bid (current_version block), latest_error w bid) of
             (Some current, Some latest) \<Rightarrow>
               (case ai_heal_block env w of
                  (Inl e, w1) \<Rightarrow>
                    (Inr block,
                     w1\<lparr>logs := logs w1 @
                          [fail_log (block_id block) (current_version block) ''heal'' e now]\<rparr>)
                | (Inr healed_code, w1) \<Rightarrow>
                    (let new_version = current_version block + 1;
                         version = \<lparr>bv_block_id = block_id block, bv_version = new_version,
                                    bv_backend_code = backend_code healed_code,
                                    bv_frontend_code = frontend_code healed_code,
                                    ai_explanation = ''Auto-healed: '' @ explanation healed_code,
                                    bv_status = ''active''\<rparr>;
                         w2 = w1\<lparr>versions := versions w1 @ [version]\<rparr>
                     in (case execute_block env w2 (block_id block) new_version
                                (backend_code healed_code) of
                           (Inr _, w3) \<Rightarrow>
                             (let block' = block\<lparr>current_version := new_version,
                                                 status := ''active'', updated_at := now\<rparr>
                              in (Inr block',
                                  update_block_row block'
                                    (w3\<lparr>logs := logs w3 @
                                          [ok_log (block_id block) new_version ''heal'' now]\<rparr>)))
                         | (Inl e, w3) \<Rightarrow>
                             (Inr block,
                              w3\<lparr>logs := logs w3 @
                                   [fail_log (block_id block) (current_version block) ''heal'' e now]\<rparr>))))
           | _ \<Rightarrow>
               (Inl (ValueError ''Cannot heal block: missing version or error information''), w)))"

text \<open>
  For the statements about \<open>heal_block\<close>: the error its \<open>try\<close> ends in, if any (of
  the oracle request, else of the run of the healed code), and the version row it adds.
\<close>

definition heal_failure :: "env \<Rightarrow> world \<Rightarrow> exn option" where
  "heal_failure env w =
     (case oracle_reply env (oracle_calls w) of
        Inl m \<Rightarrow> Some (Exception (''AI healing failed: '' @ m))
      | Inr content \<Rightarrow>
          (case classify_run env (child_run env (length (exec_history w))) of
             Inl e \<Rightarrow> Some e
           | Inr data \<Rightarrow> None))"

definition healed_version :: "block \<Rightarrow> string \<Rightarrow> block_version" where
  "healed_version block content =
     \<lparr>bv_block_id = block_id block, bv_version = current_version block + 1,
      bv_backend_code = backend_code (parse_generated_code content),
      bv_frontend_code = frontend_code (parse_generated_code content),
      ai_explanation = ''Auto-healed: '' @ explanation (parse_generated_code content),
      bv_status = ''active''\<rparr>"

text \<open>
  The start of the \<open>try\<close> of \<open>refresh_block_data\<close>: the run of the current version,
  then the \<open>BlockData\<close> row with its expiry time
  \<open>datetime.utcnow() + timedelta(seconds=block.refresh_interval)\<close>.  The run can
  raise and so can the expiry time; both are under the same \<open>except Exception\<close>.
\<close>

definition fetch_block_data ::
  "env \<Rightarrow> int \<Rightarrow> world \<Rightarrow> block \<Rightarrow> block_version \<Rightarrow> (exn + block_data) \<times> world" where
  "fetch_block_data env now w block current =
     (case execute_block env w (block_id block) (current_version block)
             (bv_backend_code current) of
        (Inl e, w1) \<Rightarrow> (Inl e, w1)
      | (Inr data, w1) \<Rightarrow>
          (case plus_seconds now (refresh_interval block) of
             Inl e \<Rightarrow> (Inl e, w1)
           | Inr expires \<Rightarrow>
               (Inr \<lparr>bd_block_id = block_id block, bd_data = data, fetched_at = now,
                     expires_at = Some expires\<rparr>, w1)))"

text \<open>
  \<open>refresh_block_data\<close>.  When the \<open>try\<close> raises, the failure is logged and
  committed, the recent failures are counted, and with at most one of them the block
  is healed and the refresh called again; the bare \<open>except\<close> swallows whatever that
  raises, and \<open>raise e\<close> raises the first failure.
\<close>

function refresh_block_data :: "env \<Rightarrow> int \<Rightarrow> world \<Rightarrow> nat \<Rightarrow> (exn + json) \<times> world" where
  "refresh_block_data env now w bid =
     (case find_block w bid of
        None \<Rightarrow> (Inl (ValueError (''Block '' @ str_nat bid @ '' not found'')), w)
      | Some block \<Rightarrow>
          (case find_version w bid (current_version block) of
             None \<Rightarrow> (Inl (ValueError (''No version found for block '' @ str_nat bid)), w)
           | Some current \<Rightarrow>
               (case fetch_block_data env now w block current of
                  (Inr block_data, w1) \<Rightarrow>
                    (Inr (bd_data block_data),
                     w1\<lparr>data_cache := data_cache w1 @ [block_data],
                         logs := logs w1 @
                            [ok_log (block_id block) (current_version block) ''fetch'' now]\<rparr>)
                | (Inl e, w1) \<Rightarrow>
                    (let w2 = w1\<lparr>logs := logs w1 @
                                  [fail_log (block_id block) (current_version block) ''fetch'' e now]\<rparr>
                     in if recent_errors w2 bid now \<le> 1 then
                          (case heal_block env now (w2\<lparr>auto_heals := auto_heals w2 @ [(bid, now)]\<rparr>) bid of
                             (Inl _, w3) \<Rightarrow> (Inl e, w3)
                           | (Inr _, w3) \<Rightarrow>
                               (case refresh_block_data env now w3 bid of
                                  (Inr data, w4) \<Rightarrow> (Inr data, w4)
                                | (Inl _, w4) \<Rightarrow> (Inl e, w4)))
                        else (Inl e, w2)))))"
  by pat_completeness auto

text \<open>The refresh terminates: the second call finds the failure the first one logged.\<close>

lemma find_block_id: "find_block w bid = Some b \<Longrightarrow> block_id b = bid"
  by (auto simp: find_block_def find_Some_iff)

lemma logs_execute_block: "logs (snd (execute_block env w bid ver code)) = logs w"
  by (simp add: execute_block_def Let_def)

lemma recent_errors_execute_block:
  "recent_errors (snd (execute_block env w b ver code)) bid now = recent_errors w bid now"
  by (simp add: recent_errors_def logs_execute_block)

lemma snd_fetch_block_data:
  "snd (fetch_block_data env now w block current) =
     snd (execute_block env w (block_id block) (current_version block) (bv_backend_code current))"
  by (simp add: fetch_block_data_def split: prod.splits sum.splits)

lemma logs_heal_block:
  "\<exists>ls. logs (snd (heal_block env now w bid)) = logs w @ ls"
  by (auto simp: heal_block_def ai_heal_block_def update_block_row_def Let_def execute_block_def
      split: option.splits prod.splits sum.splits)

lemma recent_errors_heal_block:
  "recent_errors w b t \<le> recent_errors (snd (heal_block env now w bid)) b t"
proof -
  obtain ls where "logs (snd (heal_block env now w bid)) = logs w @ ls"
    using logs_heal_block by blast
  then show ?thesis by (simp add: recent_errors_def)
qed

lemma recent_errors_fail_log:
  "recent_errors (w\<lparr>logs := logs w @ [fail_log bid ver kind e now]\<rparr>) bid now
     = Suc (recent_errors w bid now)"
  by (simp add: recent_errors_def fail_log_def)

lemma recent_errors_auto_heals:
  "recent_errors (w\<lparr>auto_heals := xs\<rparr>) bid now = recent_errors w bid now"
  by (simp add: recent_errors_def)

termination refresh_block_data
proof (relation "measure (\<lambda>(env, now, w, bid). 2 - recent_errors w bid now)", goal_cases)
  case 1
  show ?case by simp
next
  case (2 env now w bid block current res w1 e w2 hres w3 blk)
  have bid: "block_id block = bid" using 2(1) by (rule find_block_id)
  have w1: "w1 = snd (execute_block env w (block_id block) (current_version block) (bv_backend_code current))"
    using 2(3) snd_fetch_block_data[of env now w block current] by (metis snd_conv)
  have r1: "recent_errors w1 bid now = recent_errors w bid now"
    unfolding w1 by (rule recent_errors_execute_block)
  have r2: "recent_errors w2 bid now = Suc (recent_errors w bid now)"
    unfolding 2(5) using recent_errors_fail_log[of w1 bid] bid r1 by simp
  have zero: "recent_errors w bid now = 0" using 2(6) r2 by simp
  have w3: "w3 = snd (heal_block env now (w2\<lparr>auto_heals := auto_heals w2 @ [(bid, now)]\<rparr>) bid)"
    using 2(7) by (metis snd_conv)
  have "recent_errors (w2\<lparr>auto_heals := auto_heals w2 @ [(bid, now)]\<rparr>) bid now \<le> recent_errors w3 bid now"
    unfolding w3 by (rule recent_errors_heal_block)
  then have "1 \<le> recent_errors w3 bid now"
    using r2 by (simp add: recent_errors_auto_heals)
  then show ?case using zero by simp
qed

declare refresh_block_data.simps [simp del]

text \<open>
  For the statements about \<open>refresh_block_data\<close>: the store once the failure \<open>e\<close> of
  the \<open>try\<close> has been logged and committed.
\<close>

definition after_failed_run :: "env \<Rightarrow> int \<Rightarrow> world \<Rightarrow> block \<Rightarrow> block_version \<Rightarrow> exn \<Rightarrow> world" where
  "after_failed_run env now w block current e =
     (let w1 = snd (execute_block env w (block_id block) (current_version block)
                      (bv_backend_code current))
      in w1\<lparr>logs := logs w1 @
               [fail_log (block_id block) (current_version block) ''fetch'' e now]\<rparr>)"

text \<open>
  For the statements about the retry: one refresh that goes through the \<open>try\<close> for the
  given version, caches the row or logs the failure, and does nothing else.
\<close>

definition refresh_once :: "env \<Rightarrow> int \<Rightarrow> world \<Rightarrow> block \<Rightarrow> block_version \<Rightarrow> (exn + json) \<times> world" where
  "refresh_once env now w block current =
     (case fetch_block_data env now w block current of
        (Inr block_data, w1) \<Rightarrow>
          (Inr (bd_data block_data),
           w1\<lparr>data_cache := data_cache w1 @ [block_data],
               logs := logs w1 @
                  [ok_log (block_id block) (current_version block) ''fetch'' now]\<rparr>)
      | (Inl e, w1) \<Rightarrow>
          (Inl e,
           w1\<lparr>logs := logs w1 @
                  [fail_log (block_id block) (current_version block) ''fetch'' e now]\<rparr>))"

text \<open>
  \<open>get_blocks\<close>, \<open>get_block\<close>, \<open>delete_block\<close>, \<open>update_block_layout\<close>.  The commit
  of \<open>delete_block\<close> sends an \<open>UPDATE\<close> when the status changes, and that \<open>UPDATE\<close>
  sets \<open>updated_at\<close>; for a block already in status \<open>deleted\<close> the session has nothing
  to write and the row stays as it is.
\<close>

definition get_blocks :: "world \<Rightarrow> block list" where
  "get_blocks w = filter (\<lambda>b. status b \<noteq> ''deleted'') (blocks w)"

definition get_block :: "world \<Rightarrow> nat \<Rightarrow> block option" where
  "get_block w bid = find_block w bid"

definition delete_block :: "int \<Rightarrow> world \<Rightarrow> nat \<Rightarrow> bool \<times> world" where
  "delete_block now w bid =
     (case find_block w bid of
        Some block \<Rightarrow>
          (True,
           update_block_row
             (block\<lparr>status := ''deleted'',
                     updated_at := (if status block = ''deleted'' then updated_at block
                                    else now)\<rparr>) w)
      | None \<Rightarrow> (False, w))"

definition update_block_layout :: "int \<Rightarrow> world \<Rightarrow> nat \<Rightarrow> (string \<times> json) list \<Rightarrow> bool \<times> world" where
  "update_block_layout now w bid layout =
     (case find_block w bid of
        Some block \<Rightarrow> (True, update_block_row (block\<lparr>layout_data := layout, updated_at := now\<rparr>) w)
      | None \<Rightarrow> (False, w))"

section \<open>The two data routes (\<open>api/blocks.py\<close>)\<close>

datatype http_exn = HTTPException nat string

text \<open>The reply of \<open>GET /blocks/{id}/data\<close>: the payload, the \<open>cached\<close> flag, the time.\<close>

record data_reply =
  reply_data :: json
  cached :: bool
  reply_time :: int

text \<open>
  \<open>cached_data.expires_at and datetime.utcnow() > cached_data.expires_at\<close> is
  \<open>expired\<close>.  \<open>get_block_data\<close>: the latest cache row is served unless there is none or it has
  expired; the route has no handler of its own, so what the refresh raises leaves it.
\<close>

definition expired :: "int \<Rightarrow> block_data \<Rightarrow> bool" where
  "expired now cached_data = (case expires_at cached_data of None \<Rightarrow> False | Some t \<Rightarrow> t < now)"

definition get_block_data :: "env \<Rightarrow> int \<Rightarrow> world \<Rightarrow> nat \<Rightarrow> (exn + data_reply) \<times> world" where
  "get_block_data env now w bid =
     (case latest_cached w bid of
        None \<Rightarrow>
          (case refresh_block_data env now w bid of
             (Inr data, w') \<Rightarrow> (Inr \<lparr>reply_data = data, cached = False, reply_time = now\<rparr>, w')
           | (Inl e, w') \<Rightarrow> (Inl e, w'))
      | Some cached_data \<Rightarrow>
          if expired now cached_data then
            (case refresh_block_data env now w bid of
               (Inr data, w') \<Rightarrow> (Inr \<lparr>reply_data = data, cached = False, reply_time = now\<rparr>, w')
             | (Inl e, w') \<Rightarrow> (Inl e, w'))
          else
            (Inr \<lparr>reply_data = bd_data cached_data, cached = True,
                  reply_time = fetched_at cached_data\<rparr>, w))"

text \<open>\<open>refresh_block\<close>, the route \<open>POST /blocks/{id}/refresh\<close>.\<close>

definition refresh_block :: "env \<Rightarrow> int \<Rightarrow> world \<Rightarrow> nat \<Rightarrow> (http_exn + json \<times> int) \<times> world" where
  "refresh_block env now w bid =
     (case refresh_block_data env now w bid of
        (Inr data, w') \<Rightarrow> (Inr (data, now), w')
      | (Inl (ValueError m), w') \<Rightarrow> (Inl (HTTPException 404 m), w')
      | (Inl e, w') \<Rightarrow> (Inl (HTTPException 500 (str_exn e)), w'))"

section \<open>Version rows\<close>

text \<open>The version numbers of a block, in the order its rows were inserted.\<close>

definition version_numbers :: "world \<Rightarrow> nat \<Rightarrow> nat list" where
  "version_numbers w bid = map bv_version (filter (\<lambda>v. bv_block_id v = bid) (versions w))"

text \<open>The rows \<open>create_block\<close> and \<open>update_block\<close> add for a usable oracle reply.\<close>

definition first_version :: "nat \<Rightarrow> string \<Rightarrow> block_version" where
  "first_version bid content =
     \<lparr>bv_block_id = bid, bv_version = 1,
      bv_backend_code = backend_code (parse_generated_code content),
      bv_frontend_code = frontend_code (parse_generated_code content),
      ai_explanation = explanation (parse_generated_code content),
      bv_status = ''active''\<rparr>"

definition updated_version :: "block \<Rightarrow> string \<Rightarrow> block_version" where
  "updated_version block content =
     \<lparr>bv_block_id = block_id block, bv_version = current_version block + 1,
      bv_backend_code = backend_code (parse_generated_code content),
      bv_frontend_code = frontend_code (parse_generated_code content),
      ai_explanation = explanation (parse_generated_code content),
      bv_status = ''active''\<rparr>"

definition new_block :: "world \<Rightarrow> int \<Rightarrow> string \<Rightarrow> string option \<Rightarrow> int \<Rightarrow> string \<Rightarrow> block" where
  "new_block w now prompt title_arg interval st =
     \<lparr>block_id = next_block_id w, user_prompt = prompt,
      title = (case title_arg of
                 None \<Rightarrow> generate_title prompt
               | Some t \<Rightarrow> if t = [] then generate_title prompt
                                             else map of_char t),
      current_version = 1, refresh_interval = interval,
      layout_data = default_layout, status = st, updated_at = now\<rparr>"

text \<open>
  What every reachable store satisfies: a version row belongs to a block of the store
  and is numbered at most one above its \<open>current_version\<close>; the numbers of a block
  never decrease along its rows; and a block of the store has rows, the first numbered 1.
\<close>

definition store_inv :: "world \<Rightarrow> bool" where
  "store_inv w =
     ((\<forall>v \<in> set (versions w).
         \<exists>b. find_block w (bv_block_id v) = Some b \<and> bv_version v \<le> current_version b + 1) \<and>
      (\<forall>bid. sorted (version_numbers w bid)) \<and>
      (\<forall>bid b. find_block w bid = Some b \<longrightarrow>
         version_numbers w bid \<noteq> [] \<and> hd (version_numbers w bid) = 1))"

section \<open>What a step may change\<close>

text \<open>
  Across a step: the Executor's history only grows, a block stays in the store, and
  its \<open>current_version\<close> is unchanged unless the block is \<open>target\<close> and the new value
  is a version the Executor ran with success during the step.
\<close>

definition version_moves :: "nat \<Rightarrow> world \<Rightarrow> world \<Rightarrow> bool" where
  "version_moves target w w' =
     ((\<exists>xs. exec_history w' = exec_history w @ xs) \<and>
      (\<forall>bid b. find_block w bid = Some b \<longrightarrow>
         (\<exists>b'. find_block w' bid = Some b' \<and>
               (current_version b' \<noteq> current_version b \<longrightarrow>
                  bid = target \<and>
                  (bid, current_version b', True)
                    \<in> set (drop (length (exec_history w)) (exec_history w'))))))"

text \<open>
  Two heal attempts started by refreshes are spaced when, being for the same block,
  the later one starts at least an hour after the earlier one.
\<close>

definition spaced :: "nat \<times> int \<Rightarrow> nat \<times> int \<Rightarrow> bool" where
  "spaced x y = (fst x = fst y \<longrightarrow> snd x + 3600 \<le> snd y)"

text \<open>
  What every reachable state satisfies: each recorded attempt has a failure log of its
  block with its time, and the attempts are pairwise spaced.
\<close>

definition heal_inv :: "world \<Rightarrow> bool" where
  "heal_inv w =
     ((\<forall>x \<in> set (auto_heals w).
         \<exists>l \<in> set (logs w). el_block_id l = fst x \<and> \<not> success l \<and> created_at l = snd x) \<and>
      sorted_wrt spaced (auto_heals w))"

section \<open>Sequences of operations\<close>

datatype op =
    Create string "string option" int
  | Update nat string
  | Heal nat
  | RefreshData nat
  | GetData nat
  | Delete nat
  | UpdateLayout nat "(string \<times> json) list"

text \<open>One operation at time \<open>now\<close>; its reply is dropped, its effect kept.\<close>

fun step :: "env \<Rightarrow> int \<Rightarrow> op \<Rightarrow> world \<Rightarrow> world" where
  "step env now (Create prompt title_arg interval) w = snd (create_block env now w prompt title_arg interval)"
| "step env now (Update bid prompt) w = snd (update_block env now w bid prompt)"
| "step env now (Heal bid) w = snd (heal_block env now w bid)"
| "step env now (RefreshData bid) w = snd (refresh_block_data env now w bid)"
| "step env now (GetData bid) w = snd (get_block_data env now w bid)"
| "step env now (Delete bid) w = snd (delete_block now w bid)"
| "step env now (UpdateLayout bid layout) w = snd (update_block_layout now w bid layout)"

text \<open>A run: the operations in order, each with the time it is made at.\<close>

fun run :: "env \<Rightarrow> (int \<times> op) list \<Rightarrow> world \<Rightarrow> world" where
  "run env [] w = w"
| "run env ((now, opn) # rest) w = run env rest (step env now opn w)"

section \<open>Sample inputs\<close>

text \<open>An oracle reply with a backend section only.\<close>

definition sample_reply :: string where
  "sample_reply = ''## Backend Code'' @ [CHR 0x0A] @ ''```python'' @ [CHR 0x0A] @ ''x = 1'' @ [CHR 0x0A] @ ''```''"

text \<open>A table of four blocks, one in each status.\<close>

definition sample_block :: "nat \<Rightarrow> string \<Rightarrow> block" where
  "sample_block bid st =
     \<lparr>block_id = bid, user_prompt = ''p'', title = [80], current_version = 1,
      refresh_interval = 3600, layout_data = default_layout, status = st, updated_at = 0\<rparr>"

definition listing_world :: world where
  "listing_world =
     empty_world\<lparr>blocks := [sample_block 1 ''active'', sample_block 2 ''error'',
                              sample_block 3 ''disabled'', sample_block 4 ''deleted'']\<rparr>"

text \<open>
  An environment whose oracle answers and whose children never finish in time, and a
  store with one block in error, its version 1 and one failure log.
\<close>

definition hang_env :: env where
  "hang_env = \<lparr>oracle_reply = (\<lambda>n. Inr sample_reply), child_run = (\<lambda>n. TimedOut),
               json_loads = (\<lambda>s. Some s)\<rparr>"

definition sample_version :: "nat \<Rightarrow> nat \<Rightarrow> block_version" where
  "sample_version bid ver =
     \<lparr>bv_block_id = bid, bv_version = ver, bv_backend_code = ''x = 1'',
      bv_frontend_code = [], ai_explanation = [], bv_status = ''active''\<rparr>"

definition broken_world :: world where
  "broken_world =
     empty_world\<lparr>blocks := [sample_block 1 ''error''], versions := [sample_version 1 1],
                 logs := [fail_log 1 1 ''fetch'' (Exception ''boom'') 0]\<rparr>"

text \<open>
  An environment in which every oracle request and every run succeeds, and the
  creation of a block followed by five updates.
\<close>

definition ok_env :: env where
  "ok_env = \<lparr>oracle_reply = (\<lambda>n. Inr sample_reply), child_run = (\<lambda>n. Exited 0 ''{}'' []),
             json_loads = (\<lambda>s. Some s)\<rparr>"

definition six_versions :: "(int \<times> op) list" where
  "six_versions =
     [(0, Create ''weather'' None 3600), (10, Update 1 ''a''), (20, Update 1 ''b''),
      (30, Update 1 ''c''), (40, Update 1 ''d''), (50, Update 1 ''e'')]"

text \<open>
  The store of \<open>broken_world\<close> with three cache rows of block 1, the latest fetched at
  50 and inserted second, and one row of block 2.
\<close>

definition cached_world :: world where
  "cached_world =
     broken_world\<lparr>data_cache :=
       [\<lparr>bd_block_id = 1, bd_data = ''0'', fetched_at = 0, expires_at = Some 3600\<rparr>,
        \<lparr>bd_block_id = 1, bd_data = ''{}'', fetched_at = 50, expires_at = Some 3650\<rparr>,
        \<lparr>bd_block_id = 1, bd_data = ''20'', fetched_at = 20, expires_at = None\<rparr>,
        \<lparr>bd_block_id = 2, bd_data = ''90'', fetched_at = 90, expires_at = Some 9000\<rparr>]\<rparr>"

text \<open>
  An environment whose first run succeeds and whose later runs exit with code 1, and
  the creation of a block followed by two updates.
\<close>

definition flaky_env :: env where
  "flaky_env =
     \<lparr>oracle_reply = (\<lambda>n. Inr sample_reply),
      child_run = (\<lambda>n. if n = 0 then Exited 0 ''{}'' [] else Exited 1 [] ''boom''),
      json_loads = (\<lambda>s. Some s)\<rparr>"

definition two_failed_updates :: "(int \<times> op) list" where
  "two_failed_updates =
     [(0, Create ''weather'' None 3600), (10, Update 1 ''a''), (20, Update 1 ''b'')]"

text \<open>
  A store in which block 1 has a failure logged at 0 and a success logged at 4950, and
  block 2 a failure logged at 4900; and a store whose block keeps its data for
  \<open>10\<^sup>1\<^sup>2\<close> seconds.
\<close>

definition busy_world :: world where
  "busy_world =
     empty_world\<lparr>blocks := [sample_block 1 ''error'', sample_block 2 ''error''],
                 versions := [sample_version 1 1, sample_version 2 1],
                 logs := [fail_log 1 1 ''fetch'' (Exception ''boom'') 0,
                          fail_log 2 1 ''fetch'' (Exception ''boom'') 4900,
                          ok_log 1 1 ''fetch'' 4950]\<rparr>"

definition far_block :: block where
  "far_block = (sample_block 1 ''active'')\<lparr>refresh_interval := 1000000000000\<rparr>"

definition far_world :: world where
  "far_world = empty_world\<lparr>blocks := [far_block], versions := [sample_version 1 1]\<rparr>"

section \<open>Healing, case by case\<close>

lemma find_block_frame:
  "blocks w' = blocks w \<Longrightarrow> find_block w' bid = find_block w bid"
  by (simp add: find_block_def)

lemma heal_block_no_block:
  "find_block w bid = None \<Longrightarrow>
   heal_block env now w bid = (Inl (ValueError (''Block '' @ str_nat bid @ '' not found'')), w)"
  by (simp add: heal_block_def)

lemma heal_block_no_version:
  "find_block w bid = Some block \<Longrightarrow> find_version w bid (current_version block) = None \<Longrightarrow>
   heal_block env now w bid =
     (Inl (ValueError ''Cannot heal block: missing version or error information''), w)"
  by (simp add: heal_block_def)

lemma heal_block_no_error:
  "find_block w bid = Some block \<Longrightarrow> latest_error w bid = None \<Longrightarrow>
   heal_block env now w bid =
     (Inl (ValueError ''Cannot heal block: missing version or error information''), w)"
  by (cases "find_version w bid (current_version block)") (simp_all add: heal_block_def)

lemma heal_block_oracle_fails:
  assumes "find_block w bid = Some block"
    and "find_version w bid (current_version block) = Some current"
    and "latest_error w bid = Some latest"
    and "oracle_reply env (oracle_calls w) = Inl m"
  shows "heal_block env now w bid =
     (Inr block,
      w\<lparr>oracle_calls := Suc (oracle_calls w),
        logs := logs w @ [fail_log (block_id block) (current_version block) ''heal''
                            (Exception (''AI healing failed: '' @ m)) now]\<rparr>)"
  using assms by (simp add: heal_block_def ai_heal_block_def)

lemma heal_block_run_fails:
  assumes "find_block w bid = Some block"
    and "find_version w bid (current_version block) = Some current"
    and "latest_error w bid = Some latest"
    and "oracle_reply env (oracle_calls w) = Inr content"
    and "classify_run env (child_run env (length (exec_history w))) = Inl e"
  shows "fst (heal_block env now w bid) = Inr block"
    and "blocks (snd (heal_block env now w bid)) = blocks w"
    and "versions (snd (heal_block env now w bid)) = versions w @ [healed_version block content]"
    and "logs (snd (heal_block env now w bid)) =
           logs w @ [fail_log (block_id block) (current_version block) ''heal'' e now]"
    and "data_cache (snd (heal_block env now w bid)) = data_cache w"
    and "auto_heals (snd (heal_block env now w bid)) = auto_heals w"
    and "oracle_calls (snd (heal_block env now w bid)) = Suc (oracle_calls w)"
    and "exec_history (snd (heal_block env now w bid)) =
           exec_history w @ [(block_id block, current_version block + 1, False)]"
  using assms
  by (simp_all add: heal_block_def ai_heal_block_def execute_block_def Let_def healed_version_def)

lemma heal_block_run_succeeds:
  assumes "find_block w bid = Some block"
    and "find_version w bid (current_version block) = Some current"
    and "latest_error w bid = Some latest"
    and "oracle_reply env (oracle_calls w) = Inr content"
    and "classify_run env (child_run env (length (exec_history w))) = Inr data"
  shows "fst (heal_block env now w bid) =
           Inr (block\<lparr>current_version := current_version block + 1, status := ''active'',
                       updated_at := now\<rparr>)"
    and "blocks (snd (heal_block env now w bid)) =
           map (\<lambda>x. if block_id x = block_id block
                     then block\<lparr>current_version := current_version block + 1,
                                 status := ''active'', updated_at := now\<rparr>
                     else x) (blocks w)"
    and "versions (snd (heal_block env now w bid)) = versions w @ [healed_version block content]"
    and "logs (snd (heal_block env now w bid)) =
           logs w @ [ok_log (block_id block) (current_version block + 1) ''heal'' now]"
    and "data_cache (snd (heal_block env now w bid)) = data_cache w"
    and "auto_heals (snd (heal_block env now w bid)) = auto_heals w"
    and "oracle_calls (snd (heal_block env now w bid)) = Suc (oracle_calls w)"
    and "exec_history (snd (heal_block env now w bid)) =
           exec_history w @ [(block_id block, current_version block + 1, True)]"
  using assms
  by (simp_all add: heal_block_def ai_heal_block_def execute_block_def Let_def healed_version_def
      update_block_row_def)

lemma heal_block_failure:
  assumes "find_block w bid = Some block"
    and "find_version w bid (current_version block) = Some current"
    and "latest_error w bid = Some latest"
    and "heal_failure env w = Some e"
  shows "fst (heal_block env now w bid) = Inr block \<and>
         blocks (snd (heal_block env now w bid)) = blocks w \<and>
         logs (snd (heal_block env now w bid)) =
           logs w @ [fail_log (block_id block) (current_version block) ''heal'' e now]"
proof (cases "oracle_reply env (oracle_calls w)")
  case (Inl m)
  then have "e = Exception (''AI healing failed: '' @ m)"
    using assms(4) by (simp add: heal_failure_def)
  then show ?thesis
    using heal_block_oracle_fails[OF assms(1-3) Inl, of now] by simp
next
  case (Inr content)
  then have "classify_run env (child_run env (length (exec_history w))) = Inl e"
    using assms(4)
    by (cases "classify_run env (child_run env (length (exec_history w)))")
       (simp_all add: heal_failure_def)
  from heal_block_run_fails(1,2,4)[OF assms(1-3) Inr this, of now]
  show ?thesis by simp
qed

lemma heal_block_returns:
  assumes "find_block w bid = Some block"
    and "find_version w bid (current_version block) = Some current"
    and "latest_error w bid = Some latest"
  shows "\<not> isl (fst (heal_block env now w bid))"
proof (cases "oracle_reply env (oracle_calls w)")
  case (Inl m)
  then show ?thesis using heal_block_oracle_fails[OF assms Inl, of now] by simp
next
  case (Inr content)
  show ?thesis
  proof (cases "classify_run env (child_run env (length (exec_history w)))")
    case (Inl e)
    then show ?thesis using heal_block_run_fails(1)[OF assms Inr Inl, of now] by simp
  next
    case r: (Inr data)
    then show ?thesis using heal_block_run_succeeds(1)[OF assms Inr r, of now] by simp
  qed
qed

section \<open>Creating and updating, case by case\<close>

lemma block_id_below_next: "b \<in> set (blocks w) \<Longrightarrow> block_id b < next_block_id w"
proof -
  have "b \<in> set bs \<Longrightarrow> block_id b \<le> foldr max (map block_id bs) 0" for bs
    by (induction bs) auto
  then show "b \<in> set (blocks w) \<Longrightarrow> block_id b < next_block_id w"
    by (fastforce simp: next_block_id_def)
qed

lemma block_id_not_next: "b \<in> set (blocks w) \<Longrightarrow> block_id b \<noteq> next_block_id w"
  using block_id_below_next[of b w] by simp

lemma find_block_next: "find_block w (next_block_id w) = None"
  by (simp add: find_block_def find_None_iff block_id_not_next)

lemma map_fresh_id:
  "map (\<lambda>x. if block_id x = next_block_id w then b else x) (blocks w) = blocks w"
  by (rule map_idI) (simp add: block_id_not_next)

lemma update_block_oracle_fails:
  assumes "find_block w bid = Some block"
    and "oracle_reply env (oracle_calls w) = Inl m"
  shows "update_block env now w bid prompt =
     (Inl (Exception (''AI code generation failed: '' @ m)), w\<lparr>oracle_calls := Suc (oracle_calls w)\<rparr>)"
  using assms by (simp add: update_block_def generate_block_code_def)

lemma update_block_no_block:
  "find_block w bid = None \<Longrightarrow>
   update_block env now w bid prompt =
     (Inl (ValueError (''Block '' @ str_nat bid @ '' not found'')), w)"
  by (simp add: update_block_def)

lemma update_block_run_fails:
  assumes "find_block w bid = Some block"
    and "oracle_reply env (oracle_calls w) = Inr content"
    and "classify_run env (child_run env (length (exec_history w))) = Inl e"
  shows "fst (update_block env now w bid prompt) = Inr (block\<lparr>status := ''error'', updated_at := now\<rparr>)"
    and "blocks (snd (update_block env now w bid prompt)) =
           map (\<lambda>x. if block_id x = block_id block
                     then block\<lparr>status := ''error'', updated_at := now\<rparr> else x) (blocks w)"
    and "versions (snd (update_block env now w bid prompt)) = versions w @ [updated_version block content]"
    and "logs (snd (update_block env now w bid prompt)) =
           logs w @ [fail_log (block_id block) (current_version block + 1) ''fetch'' e now]"
    and "data_cache (snd (update_block env now w bid prompt)) = data_cache w"
    and "auto_heals (snd (update_block env now w bid prompt)) = auto_heals w"
    and "oracle_calls (snd (update_block env now w bid prompt)) = Suc (oracle_calls w)"
    and "exec_history (snd (update_block env now w bid prompt)) =
           exec_history w @ [(block_id block, current_version block + 1, False)]"
  using assms
  by (simp_all add: update_block_def generate_block_code_def execute_block_def Let_def
      updated_version_def update_block_row_def)

lemma update_block_run_succeeds:
  assumes "find_block w bid = Some block"
    and "oracle_reply env (oracle_calls w) = Inr content"
    and "classify_run env (child_run env (length (exec_history w))) = Inr data"
  shows "fst (update_block env now w bid prompt) =
           Inr (block\<lparr>current_version := current_version block + 1, status := ''active'',
                       updated_at := now\<rparr>)"
    and "blocks (snd (update_block env now w bid prompt)) =
           map (\<lambda>x. if block_id x = block_id block
                     then block\<lparr>current_version := current_version block + 1,
                                 status := ''active'', updated_at := now\<rparr>
                     else x) (blocks w)"
    and "versions (snd (update_block env now w bid prompt)) = versions w @ [updated_version block content]"
    and "logs (snd (update_block env now w bid prompt)) = logs w"
    and "data_cache (snd (update_block env now w bid prompt)) = data_cache w"
    and "auto_heals (snd (update_block env now w bid prompt)) = auto_heals w"
    and "oracle_calls (snd (update_block env now w bid prompt)) = Suc (oracle_calls w)"
    and "exec_history (snd (update_block env now w bid prompt)) =
           exec_history w @ [(block_id block, current_version block + 1, True)]"
  using assms
  by (simp_all add: update_block_def generate_block_code_def execute_block_def Let_def
      updated_version_def update_block_row_def)

lemma create_block_oracle_fails:
  assumes "oracle_reply env (oracle_calls w) = Inl m"
  shows "create_block env now w prompt title_arg interval =
     (Inl (Exception (''AI code generation failed: '' @ m)), w\<lparr>oracle_calls := Suc (oracle_calls w)\<rparr>)"
  using assms by (simp add: create_block_def generate_block_code_def)

lemma next_block_id_oracle_calls: "next_block_id (w\<lparr>oracle_calls := n\<rparr>) = next_block_id w"
  by (simp add: next_block_id_def)

lemma create_block_runs:
  assumes "oracle_reply env (oracle_calls w) = Inr content"
  shows "fst (create_block env now w prompt title_arg interval) =
           Inr (new_block w now prompt title_arg interval
                  (if isl (classify_run env (child_run env (length (exec_history w))))
                   then ''error'' else ''active''))"
    and "blocks (snd (create_block env now w prompt title_arg interval)) =
           blocks w @ [new_block w now prompt title_arg interval
                  (if isl (classify_run env (child_run env (length (exec_history w))))
                   then ''error'' else ''active'')]"
    and "versions (snd (create_block env now w prompt title_arg interval)) =
           versions w @ [first_version (next_block_id w) content]"
    and "data_cache (snd (create_block env now w prompt title_arg interval)) = data_cache w"
    and "auto_heals (snd (create_block env now w prompt title_arg interval)) = auto_heals w"
    and "oracle_calls (snd (create_block env now w prompt title_arg interval)) = Suc (oracle_calls w)"
    and "exec_history (snd (create_block env now w prompt title_arg interval)) =
           exec_history w @ [(next_block_id w, 1,
              \<not> isl (classify_run env (child_run env (length (exec_history w)))))]"
proof -
  note defs = create_block_def generate_block_code_def execute_block_def Let_def
    first_version_def new_block_def update_block_row_def next_block_id_oracle_calls map_fresh_id
  show "fst (create_block env now w prompt title_arg interval) =
           Inr (new_block w now prompt title_arg interval
                  (if isl (classify_run env (child_run env (length (exec_history w))))
                   then ''error'' else ''active''))"
    and "blocks (snd (create_block env now w prompt title_arg interval)) =
           blocks w @ [new_block w now prompt title_arg interval
                  (if isl (classify_run env (child_run env (length (exec_history w))))
                   then ''error'' else ''active'')]"
    and "versions (snd (create_block env now w prompt title_arg interval)) =
           versions w @ [first_version (next_block_id w) content]"
    and "data_cache (snd (create_block env now w prompt title_arg interval)) = data_cache w"
    and "auto_heals (snd (create_block env now w prompt title_arg interval)) = auto_heals w"
    and "oracle_calls (snd (create_block env now w prompt title_arg interval)) = Suc (oracle_calls w)"
    and "exec_history (snd (create_block env now w prompt title_arg interval)) =
           exec_history w @ [(next_block_id w, 1,
              \<not> isl (classify_run env (child_run env (length (exec_history w)))))]"
    using assms
    by (cases "classify_run env (child_run env (length (exec_history w)))"; simp add: defs)+
qed

section \<open>Refreshing, case by case\<close>

lemma fst_execute_block:
  "fst (execute_block env w bid ver code) = classify_run env (child_run env (length (exec_history w)))"
  by (simp add: execute_block_def Let_def)

lemma execute_block_pair:
  "execute_block env w bid ver code =
     (classify_run env (child_run env (length (exec_history w))), snd (execute_block env w bid ver code))"
  by (simp add: execute_block_def Let_def)

lemma fetch_block_data_pair:
  "fetch_block_data env now w block current =
     (fst (fetch_block_data env now w block current),
      snd (execute_block env w (block_id block) (current_version block) (bv_backend_code current)))"
  by (simp add: prod_eq_iff snd_fetch_block_data)

lemma fst_fetch_block_data:
  "fst (fetch_block_data env now w block current) =
     (case classify_run env (child_run env (length (exec_history w))) of
        Inl e \<Rightarrow> Inl e
      | Inr data \<Rightarrow>
          (case plus_seconds now (refresh_interval block) of
             Inl e \<Rightarrow> Inl e
           | Inr expires \<Rightarrow>
               Inr \<lparr>bd_block_id = block_id block, bd_data = data, fetched_at = now,
                    expires_at = Some expires\<rparr>))"
  unfolding fetch_block_data_def
  by (subst execute_block_pair) (simp split: sum.splits)

lemma fetch_ok_run_ok:
  "fst (fetch_block_data env now w block current) = Inr row \<Longrightarrow>
   \<not> isl (classify_run env (child_run env (length (exec_history w))))"
  by (simp add: fst_fetch_block_data split: sum.splits)

lemma fetch_fails_iff:
  "fst (fetch_block_data env now w block current) = Inl e \<longleftrightarrow>
     classify_run env (child_run env (length (exec_history w))) = Inl e \<or>
     (\<exists>data. classify_run env (child_run env (length (exec_history w))) = Inr data \<and>
             plus_seconds now (refresh_interval block) = Inl e)"
  by (simp add: fst_fetch_block_data split: sum.splits)

lemma refresh_no_block:
  "find_block w bid = None \<Longrightarrow>
   refresh_block_data env now w bid =
     (Inl (ValueError (''Block '' @ str_nat bid @ '' not found'')), w)"
  by (subst refresh_block_data.simps) simp

lemma refresh_no_version:
  "find_block w bid = Some block \<Longrightarrow> find_version w bid (current_version block) = None \<Longrightarrow>
   refresh_block_data env now w bid =
     (Inl (ValueError (''No version found for block '' @ str_nat bid)), w)"
  by (subst refresh_block_data.simps) simp

lemma exec_history_execute_block:
  "exec_history (snd (execute_block env w b v c)) =
     exec_history w @ [(b, v, \<not> isl (classify_run env (child_run env (length (exec_history w)))))]"
  by (simp add: execute_block_def Let_def)

lemma refresh_run_ok:
  assumes "find_block w bid = Some block"
    and "find_version w bid (current_version block) = Some current"
    and "fst (fetch_block_data env now w block current) = Inr row"
  shows "fst (refresh_block_data env now w bid) = Inr (bd_data row)"
    and "blocks (snd (refresh_block_data env now w bid)) = blocks w"
    and "versions (snd (refresh_block_data env now w bid)) = versions w"
    and "data_cache (snd (refresh_block_data env now w bid)) = data_cache w @ [row]"
    and "logs (snd (refresh_block_data env now w bid)) =
           logs w @ [ok_log (block_id block) (current_version block) ''fetch'' now]"
    and "exec_history (snd (refresh_block_data env now w bid)) =
           exec_history w @ [(block_id block, current_version block, True)]"
    and "oracle_calls (snd (refresh_block_data env now w bid)) = oracle_calls w"
    and "auto_heals (snd (refresh_block_data env now w bid)) = auto_heals w"
  using assms fetch_ok_run_ok[OF assms(3)]
  by (subst refresh_block_data.simps, subst fetch_block_data_pair,
      simp add: execute_block_def Let_def)+

lemma refresh_run_fails_throttled:
  assumes "find_block w bid = Some block"
    and "find_version w bid (current_version block) = Some current"
    and "fst (fetch_block_data env now w block current) = Inl e"
    and "1 < recent_errors (after_failed_run env now w block current e) bid now"
  shows "refresh_block_data env now w bid = (Inl e, after_failed_run env now w block current e)"
  using assms
  by (subst refresh_block_data.simps, subst fetch_block_data_pair)
     (simp add: after_failed_run_def Let_def)

lemma refresh_run_fails_heals:
  assumes "find_block w bid = Some block"
    and "find_version w bid (current_version block) = Some current"
    and "fst (fetch_block_data env now w block current) = Inl e"
    and "recent_errors (after_failed_run env now w block current e) bid now \<le> 1"
  shows "refresh_block_data env now w bid =
     (case heal_block env now
             ((after_failed_run env now w block current e)
                \<lparr>auto_heals := auto_heals w @ [(bid, now)]\<rparr>) bid of
        (Inl x, w3) \<Rightarrow> (Inl e, w3)
      | (Inr b, w3) \<Rightarrow>
          (case refresh_block_data env now w3 bid of
             (Inr data, w4) \<Rightarrow> (Inr data, w4)
           | (Inl x, w4) \<Rightarrow> (Inl e, w4)))"
  using assms
  by (subst refresh_block_data.simps, subst fetch_block_data_pair)
     (simp add: after_failed_run_def Let_def execute_block_def)

lemma after_failed_run_frame:
  shows "blocks (after_failed_run env now w block current e) = blocks w"
    and "versions (after_failed_run env now w block current e) = versions w"
    and "data_cache (after_failed_run env now w block current e) = data_cache w"
    and "logs (after_failed_run env now w block current e) =
           logs w @ [fail_log (block_id block) (current_version block) ''fetch'' e now]"
    and "exec_history (after_failed_run env now w block current e) =
           exec_history w @ [(block_id block, current_version block,
              \<not> isl (classify_run env (child_run env (length (exec_history w)))))]"
    and "oracle_calls (after_failed_run env now w block current e) = oracle_calls w"
    and "auto_heals (after_failed_run env now w block current e) = auto_heals w"
  by (simp_all add: after_failed_run_def execute_block_def Let_def)

lemma heal_block_exec_history:
  "\<exists>xs. exec_history (snd (heal_block env now w bid)) = exec_history w @ xs"
proof (cases "find_block w bid")
  case None
  then show ?thesis by (simp add: heal_block_no_block)
next
  case (Some block)
  show ?thesis
  proof (cases "find_version w bid (current_version block)")
    case None
    with Some show ?thesis by (simp add: heal_block_no_version)
  next
    case v: (Some current)
    show ?thesis
    proof (cases "latest_error w bid")
      case None
      with Some show ?thesis by (simp add: heal_block_no_error)
    next
      case l: (Some latest)
      show ?thesis
      proof (cases "oracle_reply env (oracle_calls w)")
        case (Inl m)
        show ?thesis using heal_block_oracle_fails[OF Some v l Inl, of now] by simp
      next
        case (Inr content)
        show ?thesis
        proof (cases "classify_run env (child_run env (length (exec_history w)))")
          case (Inl e)
          show ?thesis using heal_block_run_fails(8)[OF Some v l Inr Inl, of now] by simp
        next
          case r: (Inr data)
          show ?thesis using heal_block_run_succeeds(8)[OF Some v l Inr r, of now] by simp
        qed
      qed
    qed
  qed
qed

lemma after_failed_run_eq:
  "after_failed_run env now w block current e =
     (snd (execute_block env w (block_id block) (current_version block) (bv_backend_code current)))
       \<lparr>logs := logs (snd (execute_block env w (block_id block) (current_version block)
                            (bv_backend_code current))) @
                 [fail_log (block_id block) (current_version block) ''fetch'' e now]\<rparr>"
  by (simp add: after_failed_run_def Let_def)

lemma refresh_run_ok_world:
  assumes "find_block w bid = Some block"
    and "find_version w bid (current_version block) = Some current"
    and "fst (fetch_block_data env now w block current) = Inr row"
  shows "snd (refresh_block_data env now w bid) =
     (let w1 = snd (execute_block env w (block_id block) (current_version block)
                      (bv_backend_code current));
          w2 = w1\<lparr>data_cache := data_cache w1 @ [row]\<rparr>
      in w2\<lparr>logs := logs w2 @ [ok_log (block_id block) (current_version block) ''fetch'' now]\<rparr>)"
  using assms
  by (subst refresh_block_data.simps, subst fetch_block_data_pair) (simp add: Let_def)

text \<open>
  Whatever every primitive step of a refresh respects, the refresh respects: a relation
  that is reflexive and transitive and holds across a run of the Executor, across the
  insertion of a log or a cache row, across the logging of a failure that is at most
  the second of its hour together with the record of the heal attempt it starts, and
  across \<open>heal_block\<close> on the same block, holds across \<open>refresh_block_data\<close>.
\<close>

lemma refresh_block_data_respects:
  assumes "\<And>w b v c. R w (snd (execute_block env w b v c))"
    and "\<And>w l. R w (w\<lparr>logs := logs w @ [l]\<rparr>)"
    and "\<And>w d. R w (w\<lparr>data_cache := data_cache w @ [d]\<rparr>)"
    and "\<And>w l. el_block_id l = bid \<Longrightarrow> \<not> success l \<Longrightarrow> created_at l = now \<Longrightarrow>
            recent_errors (w\<lparr>logs := logs w @ [l]\<rparr>) bid now \<le> 1 \<Longrightarrow>
            R w (w\<lparr>logs := logs w @ [l], auto_heals := auto_heals w @ [(bid, now)]\<rparr>)"
    and "\<And>w. R w (snd (heal_block env now w bid))"
    and "\<And>w. R w w"
    and "\<And>a b c. R a b \<Longrightarrow> R b c \<Longrightarrow> R a c"
  shows "R w (snd (refresh_block_data env now w bid))"
  using assms
proof (induction env now w bid rule: refresh_block_data.induct)
  case (1 env now w bid)
  note rexec = "1.prems"(1) and rlog = "1.prems"(2) and rcache = "1.prems"(3)
    and rattempt = "1.prems"(4) and rheal = "1.prems"(5) and rrefl = "1.prems"(6)
    and rtrans = "1.prems"(7)
  show ?case
  proof (cases "find_block w bid")
    case None
    then show ?thesis using rrefl by (simp add: refresh_no_block)
  next
    case (Some block)
    show ?thesis
    proof (cases "find_version w bid (current_version block)")
      case None
      with Some show ?thesis using rrefl by (simp add: refresh_no_version)
    next
      case v: (Some current)
      let ?w1 = "snd (execute_block env w (block_id block) (current_version block)
                        (bv_backend_code current))"
      have r1: "R w ?w1" by (rule rexec)
      show ?thesis
      proof (cases "fst (fetch_block_data env now w block current)")
        case (Inr row)
        show ?thesis
          unfolding refresh_run_ok_world[OF Some v Inr] Let_def
          by (rule rtrans[OF rtrans[OF r1 rcache] rlog])
      next
        case (Inl e)
        let ?w2 = "after_failed_run env now w block current e"
        have r2: "R w ?w2"
          unfolding after_failed_run_eq by (rule rtrans[OF r1 rlog])
        show ?thesis
        proof (cases "recent_errors ?w2 bid now \<le> 1")
          case False
          then have "1 < recent_errors ?w2 bid now" by simp
          from refresh_run_fails_throttled[OF Some v Inl this] r2
          show ?thesis by simp
        next
          case True
          let ?w2' = "?w2\<lparr>auto_heals := auto_heals ?w2 @ [(bid, now)]\<rparr>"
          have ah: "auto_heals ?w2 = auto_heals w"
            by (simp add: after_failed_run_def execute_block_def Let_def)
          have id: "block_id block = bid" using Some by (rule find_block_id)
          have "R ?w1 (?w1\<lparr>logs := logs ?w1 @
                         [fail_log (block_id block) (current_version block) ''fetch'' e now],
                       auto_heals := auto_heals ?w1 @ [(bid, now)]\<rparr>)"
            using True by (intro rattempt) (simp_all add: fail_log_def id after_failed_run_eq)
          then have "R ?w1 ?w2'" by (simp add: after_failed_run_eq)
          then have r3: "R w ?w2'" by (rule rtrans[OF r1])
          obtain hres w3 where h: "heal_block env now ?w2' bid = (hres, w3)"
            by (cases "heal_block env now ?w2' bid")
          have r4: "R w w3" using rtrans[OF r3 rheal[of ?w2']] h by simp
          note eq = refresh_run_fails_heals[OF Some v Inl True]
          show ?thesis
          proof (cases hres)
            case hl: (Inl x)
            show ?thesis using eq h hl r4 by (simp add: ah)
          next
            case hr: (Inr b)
            have pair: "(Inl e, ?w1) = fetch_block_data env now w block current"
              using fetch_block_data_pair[of env now w block current] Inl by simp
            have le: "recent_errors (?w1\<lparr>logs := logs ?w1 @
                        [fail_log (block_id block) (current_version block) ''fetch'' e now]\<rparr>) bid now \<le> 1"
              using True by (simp add: after_failed_run_eq)
            have hp: "(hres, w3) = heal_block env now
                        ((?w1\<lparr>logs := logs ?w1 @
                            [fail_log (block_id block) (current_version block) ''fetch'' e now]\<rparr>)
                         \<lparr>auto_heals := auto_heals (?w1\<lparr>logs := logs ?w1 @
                            [fail_log (block_id block) (current_version block) ''fetch'' e now]\<rparr>) @
                            [(bid, now)]\<rparr>) bid"
              using h by (simp add: after_failed_run_eq)
            have r5: "R w3 (snd (refresh_block_data env now w3 bid))"
              by (rule "1.IH"[OF Some v pair HOL.refl HOL.refl le hp hr rexec rlog rcache rattempt rheal rrefl rtrans])
            have "snd (refresh_block_data env now w bid) = snd (refresh_block_data env now w3 bid)"
              using eq h hr
              by (cases "refresh_block_data env now w3 bid"; cases "fst (refresh_block_data env now w3 bid)")
                 (simp_all add: ah)
            then show ?thesis using rtrans[OF r4 r5] by simp
          qed
        qed
      qed
    qed
  qed
qed

lemma refresh_exec_history:
  "\<exists>xs. exec_history (snd (refresh_block_data env now w bid)) = exec_history w @ xs"
proof (rule refresh_block_data_respects
    [where R = "\<lambda>a b. \<exists>xs. exec_history b = exec_history a @ xs"], goal_cases)
  case (1 w b v c)
  show ?case by (simp add: exec_history_execute_block)
next
  case (5 w)
  show ?case by (rule heal_block_exec_history)
next
  case (7 a b c)
  then show ?case by auto
qed simp_all

text \<open>With its block and version in the store, a refresh starts by running the current version.\<close>

lemma refresh_runs_current_version:
  assumes "find_block w bid = Some block"
    and "find_version w bid (current_version block) = Some current"
  shows "\<exists>xs. exec_history (snd (refresh_block_data env now w bid)) =
           exec_history w @
             (bid, current_version block,
              \<not> isl (classify_run env (child_run env (length (exec_history w))))) # xs"
proof -
  have id: "block_id block = bid" using assms(1) by (rule find_block_id)
  show ?thesis
  proof (cases "fst (fetch_block_data env now w block current)")
    case (Inr row)
    show ?thesis
      using refresh_run_ok(6)[OF assms Inr] fetch_ok_run_ok[OF Inr] id by simp
  next
    case (Inl e)
    let ?w2 = "after_failed_run env now w block current e"
    have eh: "exec_history ?w2 = exec_history w @ [(bid, current_version block,
                \<not> isl (classify_run env (child_run env (length (exec_history w)))))]"
      using after_failed_run_frame(5)[of env now w block current e] id by simp
    show ?thesis
    proof (cases "recent_errors ?w2 bid now \<le> 1")
      case False
      then have "1 < recent_errors ?w2 bid now" by simp
      from refresh_run_fails_throttled[OF assms Inl this] eh
      show ?thesis by simp
    next
      case True
      let ?w2' = "?w2\<lparr>auto_heals := auto_heals w @ [(bid, now)]\<rparr>"
      obtain hres w3 where h: "heal_block env now ?w2' bid = (hres, w3)"
        by (cases "heal_block env now ?w2' bid")
      obtain ys where ys: "exec_history w3 = exec_history ?w2' @ ys"
        using heal_block_exec_history[of env now ?w2' bid] h by auto
      obtain zs where zs: "exec_history (snd (refresh_block_data env now w3 bid)) = exec_history w3 @ zs"
        using refresh_exec_history by blast
      note eq = refresh_run_fails_heals[OF assms Inl True]
      show ?thesis
      proof (cases hres)
        case hl: (Inl x)
        show ?thesis using eq h hl ys eh by simp
      next
        case hr: (Inr b)
        have "snd (refresh_block_data env now w bid) = snd (refresh_block_data env now w3 bid)"
          using eq h hr
          by (cases "refresh_block_data env now w3 bid"; cases "fst (refresh_block_data env now w3 bid)")
             simp_all
        then show ?thesis using zs ys eh by simp
      qed
    qed
  qed
qed

section \<open>The invariant of the version store\<close>

lemma store_inv_empty: "store_inv empty_world"
  by (simp add: store_inv_def empty_world_def version_numbers_def find_block_def)

lemma store_inv_frame:
  "blocks w' = blocks w \<Longrightarrow> versions w' = versions w \<Longrightarrow> store_inv w \<Longrightarrow> store_inv w'"
  by (simp add: store_inv_def version_numbers_def find_block_def)

lemma find_block_replace:
  assumes "find_block w bid = Some b" and "block_id b' = bid"
    and "blocks w' = map (\<lambda>x. if block_id x = bid then b' else x) (blocks w)"
  shows "find_block w' x = (if x = bid then Some b' else find_block w x)"
proof -
  have "find (\<lambda>y. block_id y = x) (map (\<lambda>x. if block_id x = bid then b' else x) bs) =
          (if x = bid then (if find (\<lambda>y. block_id y = bid) bs = None then None else Some b')
           else find (\<lambda>y. block_id y = x) bs)" for bs
    using assms(2) by (induction bs) auto
  then show ?thesis using assms by (simp add: find_block_def)
qed

lemma version_numbers_bound:
  assumes "store_inv w" and "find_block w bid = Some b" and "n \<in> set (version_numbers w bid)"
  shows "n \<le> current_version b + 1"
  using assms by (fastforce simp: store_inv_def version_numbers_def)

lemma store_inv_replace:
  assumes inv: "store_inv w" and b: "find_block w bid = Some b"
    and id: "block_id b' = bid" and le: "current_version b \<le> current_version b'"
    and bl: "blocks w' = map (\<lambda>x. if block_id x = bid then b' else x) (blocks w)"
    and vs: "versions w' = versions w"
  shows "store_inv w'"
proof -
  note fb = find_block_replace[OF b id bl]
  have vn: "version_numbers w' x = version_numbers w x" for x
    by (simp add: version_numbers_def vs)
  have a: "\<exists>c. find_block w' (bv_block_id v) = Some c \<and> bv_version v \<le> current_version c + 1"
    if "v \<in> set (versions w')" for v
  proof -
    from that inv obtain c where c: "find_block w (bv_block_id v) = Some c"
      "bv_version v \<le> current_version c + 1"
      by (auto simp: store_inv_def vs)
    show ?thesis
    proof (cases "bv_block_id v = bid")
      case True
      with c b le show ?thesis by (simp add: fb)
    next
      case False
      with c show ?thesis by (simp add: fb)
    qed
  qed
  have c: "version_numbers w' x \<noteq> [] \<and> hd (version_numbers w' x) = 1"
    if "find_block w' x = Some y" for x y
  proof -
    from that b have "\<exists>z. find_block w x = Some z" by (auto simp: fb split: if_splits)
    with inv show ?thesis by (auto simp: store_inv_def vn)
  qed
  from inv have s: "\<forall>x. sorted (version_numbers w' x)" by (simp add: store_inv_def vn)
  show ?thesis unfolding store_inv_def using a s c by blast
qed

lemma store_inv_add_version:
  assumes inv: "store_inv w" and b: "find_block w bid = Some b"
    and bl: "blocks w' = blocks w"
    and vs: "versions w' = versions w @ [row]"
    and rid: "bv_block_id row = bid" and rv: "bv_version row = current_version b + 1"
  shows "store_inv w'"
proof -
  have fb: "find_block w' x = find_block w x" for x by (simp add: find_block_def bl)
  have vn: "version_numbers w' x =
              version_numbers w x @ (if x = bid then [current_version b + 1] else [])" for x
    using rid rv by (auto simp: version_numbers_def vs)
  have a: "\<forall>v \<in> set (versions w').
         \<exists>c. find_block w' (bv_block_id v) = Some c \<and> bv_version v \<le> current_version c + 1"
    using inv b rid rv by (auto simp: store_inv_def vs fb)
  have s: "sorted (version_numbers w' x)" for x
    using inv version_numbers_bound[OF inv b]
    by (auto simp: vn sorted_append store_inv_def)
  have c: "version_numbers w' x \<noteq> [] \<and> hd (version_numbers w' x) = 1"
    if "find_block w' x = Some y" for x y
    using that inv by (auto simp: store_inv_def vn fb)
  show ?thesis unfolding store_inv_def using a s c by blast
qed

lemma find_snoc:
  "find P (xs @ [y]) = (case find P xs of None \<Rightarrow> (if P y then Some y else None) | Some x \<Rightarrow> Some x)"
  by (induction xs) auto

lemma store_inv_create:
  assumes inv: "store_inv w"
    and bl: "blocks w' = blocks w @ [nb]"
    and nid: "block_id nb = next_block_id w"
    and vs: "versions w' = versions w @ [row]"
    and rid: "bv_block_id row = next_block_id w" and rv: "bv_version row = 1"
  shows "store_inv w'"
proof -
  have fb: "find_block w' x = (if x = next_block_id w then Some nb else find_block w x)" for x
    using find_block_next[of w] nid
    by (auto simp: find_block_def bl find_snoc split: option.splits)
  have none: "version_numbers w (next_block_id w) = []"
  proof -
    have "bv_block_id v \<noteq> next_block_id w" if "v \<in> set (versions w)" for v
      using that inv find_block_next[of w] by (fastforce simp: store_inv_def)
    then show ?thesis by (simp add: version_numbers_def filter_empty_conv)
  qed
  have vn: "version_numbers w' x =
              (if x = next_block_id w then [1] else version_numbers w x)" for x
    using rid rv none by (auto simp: version_numbers_def vs)
  have a: "\<exists>c. find_block w' (bv_block_id v) = Some c \<and> bv_version v \<le> current_version c + 1"
    if "v \<in> set (versions w')" for v
  proof (cases "v \<in> set (versions w)")
    case True
    with inv obtain c where c: "find_block w (bv_block_id v) = Some c"
      "bv_version v \<le> current_version c + 1"
      by (auto simp: store_inv_def)
    then have "bv_block_id v \<noteq> next_block_id w" using find_block_next[of w] by auto
    with c show ?thesis by (simp add: fb)
  next
    case False
    with that have "v = row" by (simp add: vs)
    then show ?thesis using rid rv by (simp add: fb)
  qed
  have s: "sorted (version_numbers w' x)" for x
    using inv by (simp add: vn store_inv_def)
  have c: "version_numbers w' x \<noteq> [] \<and> hd (version_numbers w' x) = 1"
    if "find_block w' x = Some y" for x y
    using that inv by (auto simp: store_inv_def vn fb split: if_splits)
  show ?thesis unfolding store_inv_def using a s c by blast
qed

lemma execute_block_frame:
  "blocks (snd (execute_block env w b v c)) = blocks w"
  "versions (snd (execute_block env w b v c)) = versions w"
  "data_cache (snd (execute_block env w b v c)) = data_cache w"
  "oracle_calls (snd (execute_block env w b v c)) = oracle_calls w"
  "auto_heals (snd (execute_block env w b v c)) = auto_heals w"
  by (simp_all add: execute_block_def Let_def)

lemma store_inv_add_and_replace:
  assumes inv: "store_inv w" and b: "find_block w bid = Some b"
    and id: "block_id b' = bid" and le: "current_version b \<le> current_version b'"
    and bl: "blocks w' = map (\<lambda>x. if block_id x = bid then b' else x) (blocks w)"
    and vs: "versions w' = versions w @ [row]"
    and rid: "bv_block_id row = bid" and rv: "bv_version row = current_version b + 1"
  shows "store_inv w'"
proof -
  let ?wm = "w\<lparr>versions := versions w @ [row]\<rparr>"
  have m: "store_inv ?wm"
    by (rule store_inv_add_version[OF inv b _ _ rid rv]) simp_all
  have fm: "find_block ?wm bid = Some b" using b by (simp add: find_block_def)
  show ?thesis
    by (rule store_inv_replace[OF m fm id le]) (simp_all add: bl vs)
qed

lemma store_inv_heal_block:
  assumes inv: "store_inv w"
  shows "store_inv (snd (heal_block env now w bid))"
proof (cases "find_block w bid")
  case None
  then show ?thesis using inv by (simp add: heal_block_no_block)
next
  case (Some block)
  have id: "block_id block = bid" using Some by (rule find_block_id)
  show ?thesis
  proof (cases "find_version w bid (current_version block)")
    case None
    with Some show ?thesis using inv by (simp add: heal_block_no_version)
  next
    case v: (Some current)
    show ?thesis
    proof (cases "latest_error w bid")
      case None
      with Some show ?thesis using inv by (simp add: heal_block_no_error)
    next
      case l: (Some latest)
      show ?thesis
      proof (cases "oracle_reply env (oracle_calls w)")
        case (Inl m)
        show ?thesis
          by (rule store_inv_frame[OF _ _ inv])
             (simp_all add: heal_block_oracle_fails[OF Some v l Inl])
      next
        case (Inr content)
        show ?thesis
        proof (cases "classify_run env (child_run env (length (exec_history w)))")
          case (Inl e)
          note h = heal_block_run_fails[OF Some v l Inr Inl, of now]
          show ?thesis
            by (rule store_inv_add_version[OF inv Some h(2) h(3)])
               (simp_all add: healed_version_def id)
        next
          case r: (Inr data)
          note h = heal_block_run_succeeds[OF Some v l Inr r, of now]
          show ?thesis
            by (rule store_inv_add_and_replace[OF inv Some _ _ h(2)[unfolded id] h(3)])
               (simp_all add: healed_version_def id)
        qed
      qed
    qed
  qed
qed

lemma store_inv_update_block:
  assumes inv: "store_inv w"
  shows "store_inv (snd (update_block env now w bid prompt))"
proof (cases "find_block w bid")
  case None
  then show ?thesis using inv by (simp add: update_block_no_block)
next
  case (Some block)
  have id: "block_id block = bid" using Some by (rule find_block_id)
  show ?thesis
  proof (cases "oracle_reply env (oracle_calls w)")
    case (Inl m)
    show ?thesis
      by (rule store_inv_frame[OF _ _ inv]) (simp_all add: update_block_oracle_fails[OF Some Inl])
  next
    case (Inr content)
    show ?thesis
    proof (cases "classify_run env (child_run env (length (exec_history w)))")
      case (Inl e)
      note h = update_block_run_fails[OF Some Inr Inl, of now prompt]
      show ?thesis
        by (rule store_inv_add_and_replace[OF inv Some _ _ h(2)[unfolded id] h(3)])
           (simp_all add: updated_version_def id)
    next
      case r: (Inr data)
      note h = update_block_run_succeeds[OF Some Inr r, of now prompt]
      show ?thesis
        by (rule store_inv_add_and_replace[OF inv Some _ _ h(2)[unfolded id] h(3)])
           (simp_all add: updated_version_def id)
    qed
  qed
qed

lemma store_inv_create_block:
  assumes inv: "store_inv w"
  shows "store_inv (snd (create_block env now w prompt title_arg interval))"
proof (cases "oracle_reply env (oracle_calls w)")
  case (Inl m)
  show ?thesis
    by (rule store_inv_frame[OF _ _ inv]) (simp_all add: create_block_oracle_fails[OF Inl])
next
  case (Inr content)
  note h = create_block_runs[OF Inr, of now prompt title_arg interval]
  show ?thesis
    by (rule store_inv_create[OF inv h(2) _ h(3)]) (simp_all add: new_block_def first_version_def)
qed

lemma store_inv_delete_block:
  assumes inv: "store_inv w"
  shows "store_inv (snd (delete_block now w bid))"
proof (cases "find_block w bid")
  case None
  then show ?thesis using inv by (simp add: delete_block_def)
next
  case (Some block)
  have id: "block_id block = bid" using Some by (rule find_block_id)
  show ?thesis
    by (rule store_inv_replace[OF inv Some,
          of "block\<lparr>status := ''deleted'',
                     updated_at := (if status block = ''deleted'' then updated_at block
                                    else now)\<rparr>"])
       (simp_all add: delete_block_def Some update_block_row_def id)
qed

lemma store_inv_update_block_layout:
  assumes inv: "store_inv w"
  shows "store_inv (snd (update_block_layout now w bid layout))"
proof (cases "find_block w bid")
  case None
  then show ?thesis using inv by (simp add: update_block_layout_def)
next
  case (Some block)
  have id: "block_id block = bid" using Some by (rule find_block_id)
  show ?thesis
    by (rule store_inv_replace[OF inv Some, of "block\<lparr>layout_data := layout, updated_at := now\<rparr>"])
       (simp_all add: update_block_layout_def Some update_block_row_def id)
qed

lemma store_inv_refresh_block_data:
  "store_inv w \<Longrightarrow> store_inv (snd (refresh_block_data env now w bid))"
proof -
  have "store_inv w \<longrightarrow> store_inv (snd (refresh_block_data env now w bid))"
  proof (rule refresh_block_data_respects[where R = "\<lambda>a b. store_inv a \<longrightarrow> store_inv b"],
      goal_cases)
    case (1 w b v c)
    show ?case
      by (rule impI, rule store_inv_frame[of _ w]) (simp_all add: execute_block_frame)
  next
    case (2 w l)
    show ?case by (auto intro!: store_inv_frame[of _ w])
  next
    case (3 w d)
    show ?case by (auto intro!: store_inv_frame[of _ w])
  next
    case (4 w l)
    show ?case by (auto intro!: store_inv_frame[of _ w])
  next
    case (5 w)
    show ?case by (simp add: store_inv_heal_block)
  qed simp_all
  then show "store_inv w \<Longrightarrow> store_inv (snd (refresh_block_data env now w bid))" by simp
qed

lemma snd_get_block_data:
  "snd (get_block_data env now w bid) = w \<or>
   snd (get_block_data env now w bid) = snd (refresh_block_data env now w bid)"
proof -
  obtain res w' where r: "refresh_block_data env now w bid = (res, w')"
    by (cases "refresh_block_data env now w bid")
  show ?thesis
    using r by (cases res; cases "latest_cached w bid") (simp_all add: get_block_data_def)
qed

lemma store_inv_step: "store_inv w \<Longrightarrow> store_inv (step env now opn w)"
proof (cases opn)
  case (GetData bid)
  assume "store_inv w"
  then show ?thesis
    using snd_get_block_data[of env now w bid] store_inv_refresh_block_data[of w env now bid] GetData
    by auto
qed (simp_all add: store_inv_create_block store_inv_update_block store_inv_heal_block
      store_inv_refresh_block_data store_inv_delete_block store_inv_update_block_layout)

lemma store_inv_run: "store_inv w \<Longrightarrow> store_inv (run env ops w)"
  by (induction ops arbitrary: w) (auto simp: store_inv_step)

section \<open>Where \<open>current_version\<close> moves\<close>

lemma version_moves_refl: "version_moves t w w"
  by (simp add: version_moves_def)

lemma version_moves_trans:
  assumes ab: "version_moves t a b" and bc: "version_moves t b c"
  shows "version_moves t a c"
proof -
  from ab obtain xs where xs: "exec_history b = exec_history a @ xs"
    by (auto simp: version_moves_def)
  from bc obtain ys where ys: "exec_history c = exec_history b @ ys"
    by (auto simp: version_moves_def)
  have p: "\<exists>zs. exec_history c = exec_history a @ zs" using xs ys by simp
  have q: "\<exists>z. find_block c bid = Some z \<and>
               (current_version z \<noteq> current_version x \<longrightarrow>
                  bid = t \<and> (bid, current_version z, True)
                    \<in> set (drop (length (exec_history a)) (exec_history c)))"
    if x: "find_block a bid = Some x" for bid x
  proof -
    from ab x obtain y where y: "find_block b bid = Some y"
      "current_version y \<noteq> current_version x \<longrightarrow>
         bid = t \<and> (bid, current_version y, True) \<in> set xs"
      by (auto simp: version_moves_def xs)
    from bc y(1) obtain z where z: "find_block c bid = Some z"
      "current_version z \<noteq> current_version y \<longrightarrow>
         bid = t \<and> (bid, current_version z, True) \<in> set ys"
      by (auto simp: version_moves_def ys)
    have "bid = t \<and> (bid, current_version z, True) \<in> set (xs @ ys)"
      if "current_version z \<noteq> current_version x"
    proof (cases "current_version z = current_version y")
      case True
      with that y(2) show ?thesis by auto
    next
      case False
      with z(2) show ?thesis by auto
    qed
    then show ?thesis using z(1) by (auto simp: xs ys)
  qed
  show ?thesis unfolding version_moves_def using p q by blast
qed

lemma version_moves_frame:
  assumes "blocks w' = blocks w" and "\<exists>xs. exec_history w' = exec_history w @ xs"
  shows "version_moves t w w'"
  using assms by (auto simp: version_moves_def find_block_def)

lemma version_moves_replace_same:
  assumes b: "find_block w bid = Some b" and id: "block_id b' = bid"
    and cv: "current_version b' = current_version b"
    and bl: "blocks w' = map (\<lambda>x. if block_id x = bid then b' else x) (blocks w)"
    and eh: "\<exists>xs. exec_history w' = exec_history w @ xs"
  shows "version_moves t w w'"
  unfolding version_moves_def using eh b cv
  by (auto simp: find_block_replace[OF b id bl])

lemma version_moves_replace_advance:
  assumes b: "find_block w bid = Some b" and id: "block_id b' = bid"
    and bl: "blocks w' = map (\<lambda>x. if block_id x = bid then b' else x) (blocks w)"
    and eh: "exec_history w' = exec_history w @ [(bid, current_version b', True)]"
  shows "version_moves bid w w'"
  unfolding version_moves_def using eh b
  by (auto simp: find_block_replace[OF b id bl])

lemma version_moves_append_block:
  assumes bl: "blocks w' = blocks w @ [nb]"
    and eh: "\<exists>xs. exec_history w' = exec_history w @ xs"
  shows "version_moves t w w'"
  unfolding version_moves_def using eh
  by (auto simp: find_block_def bl find_snoc)

lemma version_moves_heal_block: "version_moves bid w (snd (heal_block env now w bid))"
proof (cases "find_block w bid")
  case None
  then show ?thesis by (simp add: heal_block_no_block version_moves_refl)
next
  case (Some block)
  have id: "block_id block = bid" using Some by (rule find_block_id)
  show ?thesis
  proof (cases "find_version w bid (current_version block)")
    case None
    with Some show ?thesis by (simp add: heal_block_no_version version_moves_refl)
  next
    case v: (Some current)
    show ?thesis
    proof (cases "latest_error w bid")
      case None
      with Some show ?thesis by (simp add: heal_block_no_error version_moves_refl)
    next
      case l: (Some latest)
      show ?thesis
      proof (cases "oracle_reply env (oracle_calls w)")
        case (Inl m)
        show ?thesis
          by (rule version_moves_frame) (simp_all add: heal_block_oracle_fails[OF Some v l Inl])
      next
        case (Inr content)
        show ?thesis
        proof (cases "classify_run env (child_run env (length (exec_history w)))")
          case (Inl e)
          note h = heal_block_run_fails[OF Some v l Inr Inl, of now]
          show ?thesis by (rule version_moves_frame) (simp_all add: h)
        next
          case r: (Inr data)
          note h = heal_block_run_succeeds[OF Some v l Inr r, of now]
          show ?thesis
            by (rule version_moves_replace_advance[OF Some _ h(2)[unfolded id]])
               (simp_all add: h(8) id)
        qed
      qed
    qed
  qed
qed

lemma version_moves_update_block: "version_moves bid w (snd (update_block env now w bid prompt))"
proof (cases "find_block w bid")
  case None
  then show ?thesis by (simp add: update_block_no_block version_moves_refl)
next
  case (Some block)
  have id: "block_id block = bid" using Some by (rule find_block_id)
  show ?thesis
  proof (cases "oracle_reply env (oracle_calls w)")
    case (Inl m)
    show ?thesis
      by (rule version_moves_frame) (simp_all add: update_block_oracle_fails[OF Some Inl])
  next
    case (Inr content)
    show ?thesis
    proof (cases "classify_run env (child_run env (length (exec_history w)))")
      case (Inl e)
      note h = update_block_run_fails[OF Some Inr Inl, of now prompt]
      show ?thesis
        by (rule version_moves_replace_same[OF Some _ _ h(2)[unfolded id]])
           (simp_all add: h(8) id)
    next
      case r: (Inr data)
      note h = update_block_run_succeeds[OF Some Inr r, of now prompt]
      show ?thesis
        by (rule version_moves_replace_advance[OF Some _ h(2)[unfolded id]])
           (simp_all add: h(8) id)
    qed
  qed
qed

lemma version_moves_create_block:
  "version_moves t w (snd (create_block env now w prompt title_arg interval))"
proof (cases "oracle_reply env (oracle_calls w)")
  case (Inl m)
  show ?thesis
    by (rule version_moves_frame) (simp_all add: create_block_oracle_fails[OF Inl])
next
  case (Inr content)
  note h = create_block_runs[OF Inr, of now prompt title_arg interval]
  show ?thesis
    by (rule version_moves_append_block[OF h(2)]) (simp add: h(7))
qed

lemma version_moves_delete_block: "version_moves t w (snd (delete_block now w bid))"
proof (cases "find_block w bid")
  case None
  then show ?thesis by (simp add: delete_block_def version_moves_refl)
next
  case (Some block)
  have id: "block_id block = bid" using Some by (rule find_block_id)
  show ?thesis
    by (rule version_moves_replace_same[OF Some,
          of "block\<lparr>status := ''deleted'',
                     updated_at := (if status block = ''deleted'' then updated_at block
                                    else now)\<rparr>"])
       (simp_all add: delete_block_def Some update_block_row_def id)
qed

lemma version_moves_update_block_layout:
  "version_moves t w (snd (update_block_layout now w bid layout))"
proof (cases "find_block w bid")
  case None
  then show ?thesis by (simp add: update_block_layout_def version_moves_refl)
next
  case (Some block)
  have id: "block_id block = bid" using Some by (rule find_block_id)
  show ?thesis
    by (rule version_moves_replace_same[OF Some,
          of "block\<lparr>layout_data := layout, updated_at := now\<rparr>"])
       (simp_all add: update_block_layout_def Some update_block_row_def id)
qed

lemma version_moves_refresh_block_data:
  "version_moves bid w (snd (refresh_block_data env now w bid))"
proof (rule refresh_block_data_respects[where R = "version_moves bid"], goal_cases)
  case (1 w b v c)
  show ?case
    by (rule version_moves_frame) (simp_all add: execute_block_frame exec_history_execute_block)
next
  case (5 w)
  show ?case by (rule version_moves_heal_block)
next
  case (6 w)
  show ?case by (rule version_moves_refl)
next
  case (7 a b c)
  then show ?case by (rule version_moves_trans)
qed (rule version_moves_frame; simp)+

lemma version_moves_get_block_data:
  "version_moves bid w (snd (get_block_data env now w bid))"
  using snd_get_block_data[of env now w bid] version_moves_refresh_block_data[of bid w env now]
    version_moves_refl[of bid w]
  by auto

section \<open>The heal and the retry inside a refresh\<close>

lemma latest_by_None: "latest_by key xs = None \<longleftrightarrow> xs = []"
  by (induction xs) (auto split: option.splits)

lemma refresh_once_eq:
  "refresh_once env now w block current =
     (case fst (fetch_block_data env now w block current) of
        Inr row \<Rightarrow>
          (Inr (bd_data row),
           (let w1 = snd (execute_block env w (block_id block) (current_version block)
                           (bv_backend_code current));
                w2 = w1\<lparr>data_cache := data_cache w1 @ [row]\<rparr>
            in w2\<lparr>logs := logs w2 @
                    [ok_log (block_id block) (current_version block) ''fetch'' now]\<rparr>))
      | Inl e \<Rightarrow> (Inl e, after_failed_run env now w block current e))"
  unfolding refresh_once_def
  by (subst fetch_block_data_pair) (simp add: Let_def after_failed_run_eq split: sum.splits)

lemma refresh_once_frame:
  "blocks (snd (refresh_once env now w block current)) = blocks w"
  "versions (snd (refresh_once env now w block current)) = versions w"
  "oracle_calls (snd (refresh_once env now w block current)) = oracle_calls w"
  "auto_heals (snd (refresh_once env now w block current)) = auto_heals w"
  "exec_history (snd (refresh_once env now w block current)) =
     exec_history w @ [(block_id block, current_version block,
        \<not> isl (classify_run env (child_run env (length (exec_history w)))))]"
  by (cases "fst (fetch_block_data env now w block current)";
      simp add: refresh_once_eq after_failed_run_frame execute_block_def Let_def)+

text \<open>With a failure of the block already logged within the hour, a refresh is one plain run.\<close>

lemma refresh_throttled_is_once:
  assumes fb: "find_block w bid = Some block"
    and fv: "find_version w bid (current_version block) = Some current"
    and re: "1 \<le> recent_errors w bid now"
  shows "refresh_block_data env now w bid = refresh_once env now w block current"
proof (cases "fst (fetch_block_data env now w block current)")
  case (Inr row)
  have "fst (refresh_block_data env now w bid) = Inr (bd_data row)"
    by (rule refresh_run_ok(1)[OF fb fv Inr])
  moreover note refresh_run_ok_world[OF fb fv Inr]
  ultimately show ?thesis by (simp add: prod_eq_iff refresh_once_eq Inr)
next
  case (Inl e)
  have id: "block_id block = bid" using fb by (rule find_block_id)
  have "recent_errors (after_failed_run env now w block current e) bid now
          = Suc (recent_errors w bid now)"
    using recent_errors_fail_log[of "snd (execute_block env w (block_id block)
        (current_version block) (bv_backend_code current))" bid "current_version block"
        "''fetch''" e now]
    by (simp add: after_failed_run_eq id recent_errors_execute_block)
  then have "1 < recent_errors (after_failed_run env now w block current e) bid now"
    using re by simp
  from refresh_run_fails_throttled[OF fb fv Inl this]
  show ?thesis by (simp add: refresh_once_eq Inl)
qed

lemma find_version_snoc:
  "find_version (w\<lparr>versions := versions w @ [row]\<rparr>) bid ver =
     (case find_version w bid ver of
        None \<Rightarrow> (if bv_block_id row = bid \<and> bv_version row = ver then Some row else None)
      | Some v \<Rightarrow> Some v)"
  by (simp add: find_version_def find_snoc)

lemma find_version_frame:
  "versions w' = versions w \<Longrightarrow> find_version w' bid ver = find_version w bid ver"
  by (simp add: find_version_def)

text \<open>What a heal that passes its checks leaves behind.\<close>

lemma heal_block_after:
  assumes fb: "find_block w bid = Some block"
    and fv: "find_version w bid (current_version block) = Some current"
    and le: "latest_error w bid = Some latest"
  shows "oracle_calls (snd (heal_block env now w bid)) = Suc (oracle_calls w)"
    and "auto_heals (snd (heal_block env now w bid)) = auto_heals w"
    and "\<exists>b' c'. find_block (snd (heal_block env now w bid)) bid = Some b' \<and>
           find_version (snd (heal_block env now w bid)) bid (current_version b') = Some c'"
    and "\<exists>hb. fst (heal_block env now w bid) = Inr hb"
proof -
  have id: "block_id block = bid" using fb by (rule find_block_id)
  let ?w' = "snd (heal_block env now w bid)"
  have "oracle_calls ?w' = Suc (oracle_calls w) \<and> auto_heals ?w' = auto_heals w \<and>
        (\<exists>b' c'. find_block ?w' bid = Some b' \<and> find_version ?w' bid (current_version b') = Some c') \<and>
        (\<exists>hb. fst (heal_block env now w bid) = Inr hb)"
  proof (cases "oracle_reply env (oracle_calls w)")
    case (Inl m)
    note h = heal_block_oracle_fails[OF fb fv le Inl, of now]
    have "find_block ?w' bid = Some block" using fb by (simp add: h find_block_def)
    moreover have "find_version ?w' bid (current_version block) = Some current"
      using fv by (simp add: h find_version_def)
    ultimately show ?thesis by (simp add: h)
  next
    case (Inr content)
    show ?thesis
    proof (cases "classify_run env (child_run env (length (exec_history w)))")
      case (Inl e)
      note h = heal_block_run_fails[OF fb fv le Inr Inl, of now]
      have "find_block ?w' bid = Some block"
        using fb find_block_frame[OF h(2), of bid] by simp
      moreover have "find_version ?w' bid (current_version block) = Some current"
        using fv by (simp add: find_version_def h(3) find_snoc)
      ultimately show ?thesis using h by simp
    next
      case r: (Inr data)
      note h = heal_block_run_succeeds[OF fb fv le Inr r, of now]
      let ?b' = "block\<lparr>current_version := current_version block + 1, status := ''active'',
                        updated_at := now\<rparr>"
      have "find_block ?w' bid = Some ?b'"
        using find_block_replace[OF fb _ h(2)[unfolded id], of bid] id by simp
      moreover have "\<exists>c'. find_version ?w' bid (current_version ?b') = Some c'"
        by (auto simp: find_version_def h(3) find_snoc healed_version_def id split: option.splits)
      ultimately show ?thesis using h by simp
    qed
  qed
  then show "oracle_calls ?w' = Suc (oracle_calls w)" and "auto_heals ?w' = auto_heals w"
    and "\<exists>b' c'. find_block ?w' bid = Some b' \<and> find_version ?w' bid (current_version b') = Some c'"
    and "\<exists>hb. fst (heal_block env now w bid) = Inr hb"
    by simp_all
qed

text \<open>
  The refresh whose \<open>try\<close> failed with at most one recent failure: the heal passes its
  checks, and the refresh is the retry with its error replaced by the first one.
\<close>

lemma refresh_heals_and_retries:
  assumes fb: "find_block w bid = Some block"
    and fv: "find_version w bid (current_version block) = Some current"
    and cl: "fst (fetch_block_data env now w block current) = Inl e"
    and le: "recent_errors (after_failed_run env now w block current e) bid now \<le> 1"
  shows "\<exists>hb w3 b3 c3.
           heal_block env now
             ((after_failed_run env now w block current e)
                \<lparr>auto_heals := auto_heals w @ [(bid, now)]\<rparr>) bid = (Inr hb, w3) \<and>
           find_block w3 bid = Some b3 \<and>
           find_version w3 bid (current_version b3) = Some c3 \<and>
           oracle_calls w3 = Suc (oracle_calls w) \<and>
           auto_heals w3 = auto_heals w @ [(bid, now)] \<and>
           refresh_block_data env now w bid =
             (case refresh_once env now w3 b3 c3 of
                (Inr data, w4) \<Rightarrow> (Inr data, w4)
              | (Inl x, w4) \<Rightarrow> (Inl e, w4))"
proof -
  let ?w2 = "after_failed_run env now w block current e"
  let ?w2' = "?w2\<lparr>auto_heals := auto_heals w @ [(bid, now)]\<rparr>"
  have id: "block_id block = bid" using fb by (rule find_block_id)
  note fr = after_failed_run_frame[of env now w block current e]
  have fb2: "find_block ?w2' bid = Some block" using fb by (simp add: find_block_def fr)
  have fv2: "find_version ?w2' bid (current_version block) = Some current"
    using fv by (simp add: find_version_def fr)
  have "latest_error ?w2' bid \<noteq> None"
    by (simp add: latest_error_def latest_by_None fr fail_log_def id)
  then obtain latest where le2: "latest_error ?w2' bid = Some latest" by auto
  note ha = heal_block_after[OF fb2 fv2 le2, of env now]
  obtain hres w3 where h: "heal_block env now ?w2' bid = (hres, w3)"
    by (cases "heal_block env now ?w2' bid")
  from ha(4) h obtain hb where hb: "hres = Inr hb" by auto
  from ha(3) h obtain b3 c3 where b3: "find_block w3 bid = Some b3"
    "find_version w3 bid (current_version b3) = Some c3" by auto
  have oc: "oracle_calls w3 = Suc (oracle_calls w)" using ha(1) h by (simp add: fr)
  have ah: "auto_heals w3 = auto_heals w @ [(bid, now)]" using ha(2) h by simp
  have "recent_errors ?w2 bid now = Suc (recent_errors w bid now)"
    using recent_errors_fail_log[of "snd (execute_block env w (block_id block)
        (current_version block) (bv_backend_code current))" bid "current_version block"
        "''fetch''" e now]
    by (simp add: after_failed_run_eq id recent_errors_execute_block)
  then have "1 \<le> recent_errors ?w2' bid now" by (simp add: recent_errors_auto_heals)
  then have re: "1 \<le> recent_errors w3 bid now"
    using recent_errors_heal_block[of ?w2' bid now env now bid] h by simp
  have once: "refresh_block_data env now w3 bid = refresh_once env now w3 b3 c3"
    by (rule refresh_throttled_is_once[OF b3 re])
  have "refresh_block_data env now w bid =
          (case refresh_once env now w3 b3 c3 of
             (Inr data, w4) \<Rightarrow> (Inr data, w4)
           | (Inl x, w4) \<Rightarrow> (Inl e, w4))"
    using refresh_run_fails_heals[OF fb fv cl le] h hb once by simp
  with h hb b3 oc ah show ?thesis by blast
qed

section \<open>The spacing of heal attempts\<close>

lemma heal_inv_empty: "heal_inv empty_world"
  by (simp add: heal_inv_def empty_world_def)

lemma heal_inv_frame:
  assumes "auto_heals w' = auto_heals w" and "\<exists>ls. logs w' = logs w @ ls" and "heal_inv w"
  shows "heal_inv w'"
  using assms by (fastforce simp: heal_inv_def)

lemma heal_inv_attempt:
  assumes inv: "heal_inv w"
    and l: "el_block_id l = bid" "\<not> success l" "created_at l = now"
    and le: "recent_errors (w\<lparr>logs := logs w @ [l]\<rparr>) bid now \<le> 1"
  shows "heal_inv (w\<lparr>logs := logs w @ [l], auto_heals := auto_heals w @ [(bid, now)]\<rparr>)"
proof -
  have none: "filter (\<lambda>l. el_block_id l = bid \<and> \<not> success l \<and> now - 3600 < created_at l) (logs w) = []"
    using le l by (simp add: recent_errors_def)
  have sp: "spaced x (bid, now)" if x: "x \<in> set (auto_heals w)" for x
  proof (cases "fst x = bid")
    case False
    then show ?thesis by (simp add: spaced_def)
  next
    case True
    from inv x obtain l' where l': "l' \<in> set (logs w)" "el_block_id l' = fst x" "\<not> success l'"
      "created_at l' = snd x"
      by (auto simp: heal_inv_def)
    from none l' True have "\<not> now - 3600 < snd x"
      by (auto simp: filter_empty_conv)
    then show ?thesis by (simp add: spaced_def)
  qed
  have a: "\<exists>l' \<in> set (logs w @ [l]). el_block_id l' = fst x \<and> \<not> success l' \<and> created_at l' = snd x"
    if "x \<in> set (auto_heals w @ [(bid, now)])" for x
  proof (cases "x \<in> set (auto_heals w)")
    case True
    with inv show ?thesis by (fastforce simp: heal_inv_def)
  next
    case False
    with that have "x = (bid, now)" by simp
    with l show ?thesis by simp
  qed
  have s: "sorted_wrt spaced (auto_heals w @ [(bid, now)])"
    using inv sp by (simp add: sorted_wrt_append heal_inv_def)
  show ?thesis unfolding heal_inv_def using a s by simp
qed

lemma auto_heals_heal_block: "auto_heals (snd (heal_block env now w bid)) = auto_heals w"
proof (cases "find_block w bid")
  case None
  then show ?thesis by (simp add: heal_block_no_block)
next
  case (Some block)
  show ?thesis
  proof (cases "find_version w bid (current_version block)")
    case None
    with Some show ?thesis by (simp add: heal_block_no_version)
  next
    case v: (Some current)
    show ?thesis
    proof (cases "latest_error w bid")
      case None
      with Some show ?thesis by (simp add: heal_block_no_error)
    next
      case l: (Some latest)
      show ?thesis by (rule heal_block_after(2)[OF Some v l])
    qed
  qed
qed

lemma update_block_logs:
  "auto_heals (snd (update_block env now w bid prompt)) = auto_heals w \<and>
   (\<exists>ls. logs (snd (update_block env now w bid prompt)) = logs w @ ls)"
proof (cases "find_block w bid")
  case None
  then show ?thesis by (simp add: update_block_no_block)
next
  case (Some block)
  show ?thesis
  proof (cases "oracle_reply env (oracle_calls w)")
    case (Inl m)
    show ?thesis by (simp add: update_block_oracle_fails[OF Some Inl])
  next
    case (Inr content)
    show ?thesis
    proof (cases "classify_run env (child_run env (length (exec_history w)))")
      case (Inl e)
      show ?thesis using update_block_run_fails(4,6)[OF Some Inr Inl, of now prompt] by simp
    next
      case r: (Inr data)
      show ?thesis using update_block_run_succeeds(4,6)[OF Some Inr r, of now prompt] by simp
    qed
  qed
qed

lemma create_block_logs:
  "auto_heals (snd (create_block env now w prompt title_arg interval)) = auto_heals w \<and>
   (\<exists>ls. logs (snd (create_block env now w prompt title_arg interval)) = logs w @ ls)"
proof (cases "oracle_reply env (oracle_calls w)")
  case (Inl m)
  show ?thesis by (simp add: create_block_oracle_fails[OF Inl])
next
  case (Inr content)
  have "\<exists>ls. logs (snd (create_block env now w prompt title_arg interval)) = logs w @ ls"
    using Inr
    by (cases "classify_run env (child_run env (length (exec_history w)))")
       (simp_all add: create_block_def generate_block_code_def execute_block_def Let_def
          update_block_row_def)
  then show ?thesis using create_block_runs(5)[OF Inr] by simp
qed

lemma heal_inv_refresh_block_data:
  "heal_inv w \<Longrightarrow> heal_inv (snd (refresh_block_data env now w bid))"
proof -
  have "heal_inv w \<longrightarrow> heal_inv (snd (refresh_block_data env now w bid))"
  proof (rule refresh_block_data_respects[where R = "\<lambda>a b. heal_inv a \<longrightarrow> heal_inv b"],
      goal_cases)
    case (1 w b v c)
    show ?case
      by (rule impI, rule heal_inv_frame[of _ w])
         (simp_all add: execute_block_frame logs_execute_block)
  next
    case (2 w l)
    show ?case by (rule impI, rule heal_inv_frame[of _ w]) simp_all
  next
    case (3 w d)
    show ?case by (rule impI, rule heal_inv_frame[of _ w]) simp_all
  next
    case (4 w l)
    then show ?case using heal_inv_attempt[of w l bid now] by simp
  next
    case (5 w)
    show ?case
      by (rule impI, rule heal_inv_frame[of _ w])
         (simp_all add: auto_heals_heal_block logs_heal_block)
  qed simp_all
  then show "heal_inv w \<Longrightarrow> heal_inv (snd (refresh_block_data env now w bid))" by simp
qed

lemma heal_inv_step: "heal_inv w \<Longrightarrow> heal_inv (step env now opn w)"
proof (cases opn)
  case (Create prompt title_arg interval)
  assume "heal_inv w"
  then show ?thesis
    using create_block_logs[of env now w prompt title_arg interval] Create
    by (auto intro: heal_inv_frame)
next
  case (Update bid prompt)
  assume "heal_inv w"
  then show ?thesis
    using update_block_logs[of env now w bid prompt] Update
    by (auto intro: heal_inv_frame)
next
  case (Heal bid)
  assume "heal_inv w"
  then show ?thesis
    using auto_heals_heal_block[of env now w bid] logs_heal_block[of env now w bid] Heal
    by (auto intro: heal_inv_frame)
next
  case (RefreshData bid)
  assume "heal_inv w"
  then show ?thesis using RefreshData by (simp add: heal_inv_refresh_block_data)
next
  case (GetData bid)
  assume "heal_inv w"
  then show ?thesis
    using snd_get_block_data[of env now w bid] heal_inv_refresh_block_data[of w env now bid] GetData
    by auto
next
  case (Delete bid)
  assume "heal_inv w"
  then show ?thesis
    using Delete
    by (cases "find_block w bid")
       (auto intro: heal_inv_frame simp: delete_block_def update_block_row_def)
next
  case (UpdateLayout bid layout)
  assume "heal_inv w"
  then show ?thesis
    using UpdateLayout
    by (cases "find_block w bid")
       (auto intro: heal_inv_frame simp: update_block_layout_def update_block_row_def)
qed

lemma heal_inv_run: "heal_inv w \<Longrightarrow> heal_inv (run env ops w)"
  by (induction ops arbitrary: w) (auto simp: heal_inv_step)

section \<open>The parser never fails and leaves a missing section empty\<close>

text \<open>
  A line that is not the header of a section cannot open it, and a field is written
  only while its section is open.
\<close>

lemma parse_line_keeps_backend:
  "strip line \<noteq> ''## Backend Code'' \<Longrightarrow>
   backend_code (result st) = [] \<and> current_section st \<noteq> Some Backend \<Longrightarrow>
   backend_code (result (parse_line st line)) = [] \<and> current_section (parse_line st line) \<noteq> Some Backend"
  by (simp add: parse_line_def Let_def)

lemma parse_line_keeps_frontend:
  "strip line \<noteq> ''## Frontend Code'' \<Longrightarrow>
   frontend_code (result st) = [] \<and> current_section st \<noteq> Some Frontend \<Longrightarrow>
   frontend_code (result (parse_line st line)) = [] \<and> current_section (parse_line st line) \<noteq> Some Frontend"
  by (simp add: parse_line_def Let_def)

lemma parse_line_keeps_explanation:
  "strip line \<noteq> ''## Explanation'' \<Longrightarrow>
   explanation (result st) = [] \<and> current_section st \<noteq> Some Explanation \<Longrightarrow>
   explanation (result (parse_line st line)) = [] \<and> current_section (parse_line st line) \<noteq> Some Explanation"
  by (simp add: parse_line_def Let_def)

lemma foldl_parse_line_backend:
  "\<not> list_ex (\<lambda>line. strip line = ''## Backend Code'') ls \<Longrightarrow>
   backend_code (result st) = [] \<and> current_section st \<noteq> Some Backend \<Longrightarrow>
   backend_code (result (foldl parse_line st ls)) = [] \<and>
   current_section (foldl parse_line st ls) \<noteq> Some Backend"
proof (induction ls arbitrary: st)
  case Nil
  then show ?case by simp
next
  case (Cons l ls)
  from Cons.prems have "strip l \<noteq> ''## Backend Code''" by simp
  from parse_line_keeps_backend[OF this Cons.prems(2)] Cons.prems(1) Cons.IH[of "parse_line st l"]
  show ?case by simp
qed

lemma foldl_parse_line_frontend:
  "\<not> list_ex (\<lambda>line. strip line = ''## Frontend Code'') ls \<Longrightarrow>
   frontend_code (result st) = [] \<and> current_section st \<noteq> Some Frontend \<Longrightarrow>
   frontend_code (result (foldl parse_line st ls)) = [] \<and>
   current_section (foldl parse_line st ls) \<noteq> Some Frontend"
proof (induction ls arbitrary: st)
  case Nil
  then show ?case by simp
next
  case (Cons l ls)
  from Cons.prems have "strip l \<noteq> ''## Frontend Code''" by simp
  from parse_line_keeps_frontend[OF this Cons.prems(2)] Cons.prems(1) Cons.IH[of "parse_line st l"]
  show ?case by simp
qed

lemma foldl_parse_line_explanation:
  "\<not> list_ex (\<lambda>line. strip line = ''## Explanation'') ls \<Longrightarrow>
   explanation (result st) = [] \<and> current_section st \<noteq> Some Explanation \<Longrightarrow>
   explanation (result (foldl parse_line st ls)) = [] \<and>
   current_section (foldl parse_line st ls) \<noteq> Some Explanation"
proof (induction ls arbitrary: st)
  case Nil
  then show ?case by simp
next
  case (Cons l ls)
  from Cons.prems have "strip l \<noteq> ''## Explanation''" by simp
  from parse_line_keeps_explanation[OF this Cons.prems(2)] Cons.prems(1) Cons.IH[of "parse_line st l"]
  show ?case by simp
qed

text \<open>
  Claim C8.  \<open>parse_generated_code\<close> is a total function from reply texts to records
  with the three fields \<open>backend_code\<close>, \<open>frontend_code\<close> and \<open>explanation\<close>: no step
  of it can raise on a \<open>str\<close>.  For each of the three labelled sections that no line
  of the text opens, the field of that section is the empty string.
\<close>

theorem parse_generated_code_missing_section_empty:
  "(\<not> has_section ''## Backend Code'' content \<longrightarrow> backend_code (parse_generated_code content) = []) \<and>
   (\<not> has_section ''## Frontend Code'' content \<longrightarrow> frontend_code (parse_generated_code content) = []) \<and>
   (\<not> has_section ''## Explanation'' content \<longrightarrow> explanation (parse_generated_code content) = [])"
proof (intro conjI impI)
  assume "\<not> has_section ''## Backend Code'' content"
  then have "backend_code (result (foldl parse_line initial_parse_state (split_on (CHR 0x0A) content))) = []"
    using foldl_parse_line_backend[of "split_on (CHR 0x0A) content" initial_parse_state]
    by (simp add: has_section_def initial_parse_state_def)
  then show "backend_code (parse_generated_code content) = []"
    by (simp add: parse_generated_code_def Let_def)
next
  assume "\<not> has_section ''## Frontend Code'' content"
  then have "frontend_code (result (foldl parse_line initial_parse_state (split_on (CHR 0x0A) content))) = []"
    using foldl_parse_line_frontend[of "split_on (CHR 0x0A) content" initial_parse_state]
    by (simp add: has_section_def initial_parse_state_def)
  then show "frontend_code (parse_generated_code content) = []"
    by (simp add: parse_generated_code_def Let_def)
next
  assume "\<not> has_section ''## Explanation'' content"
  then have "explanation (result (foldl parse_line initial_parse_state (split_on (CHR 0x0A) content))) = [] \<and>
     current_section (foldl parse_line initial_parse_state (split_on (CHR 0x0A) content)) \<noteq> Some Explanation"
    using foldl_parse_line_explanation[of "split_on (CHR 0x0A) content" initial_parse_state]
    by (simp add: has_section_def initial_parse_state_def)
  then show "explanation (parse_generated_code content) = []"
    by (simp add: parse_generated_code_def Let_def)
qed

theorem parse_generated_code_missing_section_empty_witness:
  "has_section ''## Backend Code'' sample_reply \<and>
   \<not> has_section ''## Frontend Code'' sample_reply \<and>
   \<not> has_section ''## Explanation'' sample_reply \<and>
   parse_generated_code sample_reply = \<lparr>backend_code = ''x = 1'', frontend_code = [], explanation = []\<rparr>"
  using parse_generated_code_missing_section_empty[of sample_reply]
  by code_simp

section \<open>The import guard\<close>

text \<open>
  Claim C6.  The claim says an import whose top-level name is outside the allowlist
  and has no leading underscore is rejected.  The guard instead hands such a name to
  the interpreter's own import and returns what it loads: \<open>import subprocess\<close>, a name
  outside the allowlist, succeeds.  The comments of the wrapper read
  ``Restrict imports to allowed packages only''.
\<close>

theorem restricted_import_admits_subprocess:
  "base_name_of ''subprocess'' \<notin> set ALLOWED_PACKAGES \<and>
   \<not> startswith (base_name_of ''subprocess'') ''_'' \<and>
   restricted_import cpython_import ''subprocess'' = Inr (Module ''subprocess'')"
  by (simp add: restricted_import_def cpython_import_def base_name_of_def ALLOWED_PACKAGES_def
      startswith_def)

section \<open>Listing and soft deletion\<close>

lemma find_update_block_row:
  "find_block w bid = Some b \<Longrightarrow> block_id b' = bid \<Longrightarrow>
   find_block (update_block_row b' w) bid = Some b'"
  unfolding find_block_def update_block_row_def
  by (induction "blocks w" arbitrary: w) (auto simp: find_Some_iff split: if_splits)

text \<open>
  Claim C10.  \<open>get_blocks\<close> returns exactly the blocks whose status is not
  \<open>deleted\<close>, so blocks in status \<open>error\<close> or \<open>disabled\<close> are listed; after
  \<open>delete_block\<close> the block is no longer listed, no row is removed, and \<open>get_block\<close>
  still reads it by id: its status is \<open>deleted\<close>, its \<open>updated_at\<close> is the time of the
  deletion unless it was deleted before, and its other columns are as they were.
\<close>

theorem get_blocks_hides_only_deleted:
  "set (get_blocks w) = {b. b \<in> set (blocks w) \<and> status b \<noteq> ''deleted''} \<and>
   (find_block w bid = Some b \<longrightarrow>
      fst (delete_block now w bid) \<and>
      get_block (snd (delete_block now w bid)) bid =
        Some (b\<lparr>status := ''deleted'',
                 updated_at := (if status b = ''deleted'' then updated_at b else now)\<rparr>) \<and>
      list_all (\<lambda>x. block_id x \<noteq> bid) (get_blocks (snd (delete_block now w bid))) \<and>
      length (blocks (snd (delete_block now w bid))) = length (blocks w))"
proof (intro conjI impI)
  show "set (get_blocks w) = {b. b \<in> set (blocks w) \<and> status b \<noteq> ''deleted''}"
    by (auto simp: get_blocks_def)
next
  assume b: "find_block w bid = Some b"
  then have id: "block_id b = bid" by (rule find_block_id)
  show "fst (delete_block now w bid)" using b by (simp add: delete_block_def)
  show "get_block (snd (delete_block now w bid)) bid =
        Some (b\<lparr>status := ''deleted'',
                 updated_at := (if status b = ''deleted'' then updated_at b else now)\<rparr>)"
    using b id by (simp add: delete_block_def get_block_def find_update_block_row)
  show "list_all (\<lambda>x. block_id x \<noteq> bid) (get_blocks (snd (delete_block now w bid)))"
    using b id by (auto simp: delete_block_def get_blocks_def update_block_row_def list_all_iff)
  show "length (blocks (snd (delete_block now w bid))) = length (blocks w)"
    using b by (simp add: delete_block_def update_block_row_def)
qed

theorem get_blocks_hides_only_deleted_witness:
  "get_blocks listing_world =
     [sample_block 1 ''active'', sample_block 2 ''error'', sample_block 3 ''disabled''] \<and>
   find_block listing_world 2 = Some (sample_block 2 ''error'') \<and>
   get_blocks (snd (delete_block 70 listing_world 2)) =
     [sample_block 1 ''active'', sample_block 3 ''disabled''] \<and>
   get_block (snd (delete_block 70 listing_world 2)) 2 =
     Some ((sample_block 2 ''deleted'')\<lparr>updated_at := 70\<rparr>) \<and>
   find_block listing_world 4 = Some (sample_block 4 ''deleted'') \<and>
   get_block (snd (delete_block 70 listing_world 4)) 4 = Some (sample_block 4 ''deleted'')"
proof -
  have f: "find_block listing_world 2 = Some (sample_block 2 ''error'')"
    by (simp add: find_block_def listing_world_def sample_block_def)
  have f4: "find_block listing_world 4 = Some (sample_block 4 ''deleted'')"
    by (simp add: find_block_def listing_world_def sample_block_def)
  have g: "get_blocks listing_world =
             [sample_block 1 ''active'', sample_block 2 ''error'', sample_block 3 ''disabled'']"
    by (simp add: get_blocks_def listing_world_def sample_block_def)
  have h: "get_blocks (snd (delete_block 70 listing_world 2)) =
             [sample_block 1 ''active'', sample_block 3 ''disabled'']"
    by (simp add: delete_block_def f update_block_row_def get_blocks_def)
       (simp add: listing_world_def sample_block_def)
  have e: "(sample_block 2 ''error'')\<lparr>status := ''deleted'', updated_at := 70\<rparr> =
             (sample_block 2 ''deleted'')\<lparr>updated_at := 70\<rparr>"
    "status (sample_block 2 ''error'') \<noteq> ''deleted''"
    "(sample_block 4 ''deleted'')\<lparr>status := ''deleted'',
        updated_at := updated_at (sample_block 4 ''deleted'')\<rparr> = sample_block 4 ''deleted''"
    "status (sample_block 4 ''deleted'') = ''deleted''"
    by (simp_all add: sample_block_def)
  from get_blocks_hides_only_deleted[of listing_world 2 "sample_block 2 ''error''" 70]
    get_blocks_hides_only_deleted[of listing_world 4 "sample_block 4 ''deleted''" 70]
    f f4 g h e
  show ?thesis by simp
qed

section \<open>The Executor's timeout\<close>

text \<open>
  Claim C5, as amended.  When the child has not exited within the 30 seconds,
  \<open>execute_block\<close> fails with the message \<open>Block execution timed out\<close>, and this
  failure is distinct: no other outcome of a run produces it (every other failure is
  wrapped as \<open>Execution error: ...\<close>).
\<close>

theorem execute_block_timeout_is_distinct:
  "(child_run env (length (exec_history w)) = TimedOut \<longrightarrow>
      fst (execute_block env w bid ver code) = Inl (Exception ''Block execution timed out'')) \<and>
   (child_run env (length (exec_history w)) \<noteq> TimedOut \<longrightarrow>
      fst (execute_block env w bid ver code) \<noteq> Inl (Exception ''Block execution timed out''))"
  by (auto simp: execute_block_def classify_run_def Let_def split: comm_result.splits option.splits)

theorem execute_block_timeout_is_distinct_witness:
  "child_run hang_env (length (exec_history empty_world)) = TimedOut \<and>
   fst (execute_block hang_env empty_world 1 1 ''x = 1'') = Inl (Exception ''Block execution timed out'')"
  using execute_block_timeout_is_distinct[of hang_env empty_world 1 1 "''x = 1''"]
  by (simp add: hang_env_def empty_world_def)

text \<open>
  The claim also says the child is killed.  \<open>execute_block\<close> only abandons the wait:
  it calls neither \<open>process.kill()\<close> nor \<open>process.terminate()\<close>, so the child of a run
  that timed out is still running when the failure is raised.
\<close>

theorem execute_block_timeout_leaves_child_running:
  "child_run hang_env (length (exec_history empty_world)) = TimedOut \<and>
   fst (execute_block hang_env empty_world 1 1 ''x = 1'') = Inl (Exception ''Block execution timed out'') \<and>
   orphans (snd (execute_block hang_env empty_world 1 1 ''x = 1'')) = [(1, 1)]"
  by (simp add: execute_block_def classify_run_def hang_env_def empty_world_def Let_def)

section \<open>Healing\<close>

text \<open>
  Claim C2.  When the block exists, has a version row at \<open>current_version\<close> and has a
  failure log, \<open>heal_block\<close> returns normally; and if the oracle request or the run of
  the healed code fails with \<open>e\<close>, the block is returned as it was, its stored row
  (so \<open>current_version\<close>) is unchanged, and the committed logs are the old ones
  followed by one \<open>heal\<close> failure log whose version is the \<open>current_version\<close> from
  before the call.  When the block is missing or a precondition fails, an error is
  raised and nothing is written.
\<close>

theorem heal_block_contains_failures:
  "(find_block w bid = Some block \<and>
    find_version w bid (current_version block) = Some current \<and>
    latest_error w bid = Some latest \<longrightarrow>
      \<not> isl (fst (heal_block env now w bid)) \<and>
      (heal_failure env w = Some e \<longrightarrow>
         fst (heal_block env now w bid) = Inr block \<and>
         find_block (snd (heal_block env now w bid)) bid = Some block \<and>
         logs (snd (heal_block env now w bid)) =
           logs w @ [\<lparr>el_block_id = bid, el_version = current_version block,
                      execution_type = ''heal'', success = False,
                      error_message = Some (str_exn e), created_at = now\<rparr>])) \<and>
   (find_block w bid = None \<or>
    (\<exists>b. find_block w bid = Some b \<and>
         (find_version w bid (current_version b) = None \<or> latest_error w bid = None)) \<longrightarrow>
      isl (fst (heal_block env now w bid)) \<and> snd (heal_block env now w bid) = w)"
proof (intro conjI impI; (elim conjE)?)
  assume a: "find_block w bid = Some block"
    "find_version w bid (current_version block) = Some current"
    "latest_error w bid = Some latest"
  show "\<not> isl (fst (heal_block env now w bid))"
    using a by (rule heal_block_returns)
  assume f: "heal_failure env w = Some e"
  have id: "block_id block = bid" using a(1) by (rule find_block_id)
  note h = heal_block_failure[OF a f, of now]
  show "fst (heal_block env now w bid) = Inr block" using h by simp
  show "find_block (snd (heal_block env now w bid)) bid = Some block"
    using find_block_frame[of "snd (heal_block env now w bid)" w bid] h a(1) by simp
  show "logs (snd (heal_block env now w bid)) =
          logs w @ [\<lparr>el_block_id = bid, el_version = current_version block,
                     execution_type = ''heal'', success = False,
                     error_message = Some (str_exn e), created_at = now\<rparr>]"
    using h id by (simp add: fail_log_def)
next
  assume "find_block w bid = None \<or>
    (\<exists>b. find_block w bid = Some b \<and>
         (find_version w bid (current_version b) = None \<or> latest_error w bid = None))"
  then have "\<exists>m. heal_block env now w bid = (Inl m, w)"
    using heal_block_no_block[of w bid env now] heal_block_no_version[of w bid _ env now]
      heal_block_no_error[of w bid _ env now]
    by blast
  then show "isl (fst (heal_block env now w bid))" and "snd (heal_block env now w bid) = w"
    by auto
qed

theorem heal_block_contains_failures_witness:
  "find_block broken_world 1 = Some (sample_block 1 ''error'') \<and>
   heal_failure hang_env broken_world = Some (Exception ''Block execution timed out'') \<and>
   fst (heal_block hang_env 100 broken_world 1) = Inr (sample_block 1 ''error'') \<and>
   find_block (snd (heal_block hang_env 100 broken_world 1)) 1 = Some (sample_block 1 ''error'') \<and>
   logs (snd (heal_block hang_env 100 broken_world 1)) =
     logs broken_world @
       [\<lparr>el_block_id = 1, el_version = 1, execution_type = ''heal'', success = False,
         error_message = Some ''Block execution timed out'', created_at = 100\<rparr>]"
proof -
  have b: "find_block broken_world 1 = Some (sample_block 1 ''error'')"
    by (simp add: find_block_def broken_world_def sample_block_def)
  have cv: "current_version (sample_block 1 ''error'') = 1"
    by (simp add: sample_block_def)
  have v: "find_version broken_world 1 (current_version (sample_block 1 ''error''))
             = Some (sample_version 1 1)"
    by (simp add: find_version_def broken_world_def sample_version_def sample_block_def)
  have l: "latest_error broken_world 1 = Some (fail_log 1 1 ''fetch'' (Exception ''boom'') 0)"
    by (simp add: latest_error_def broken_world_def fail_log_def)
  have f: "heal_failure hang_env broken_world = Some (Exception ''Block execution timed out'')"
    by (simp add: heal_failure_def hang_env_def classify_run_def)
  from heal_block_contains_failures[of broken_world 1 "sample_block 1 ''error''"
      "sample_version 1 1" "fail_log 1 1 ''fetch'' (Exception ''boom'') 0" hang_env 100
      "Exception ''Block execution timed out''"] b v l f
  show ?thesis by (simp add: sample_block_def)
qed

section \<open>The two ways to read data\<close>

lemma latest_by_greatest:
  "latest_by key xs = Some y \<Longrightarrow> y \<in> set xs \<and> (\<forall>x \<in> set xs. key x \<le> key y)"
proof (induction xs arbitrary: y)
  case Nil
  then show ?case by simp
next
  case (Cons a xs)
  show ?case
  proof (cases "latest_by key xs")
    case None
    then have "xs = []" by (simp add: latest_by_None)
    with Cons.prems show ?thesis by simp
  next
    case (Some z)
    note ih = Cons.IH[OF Some]
    show ?thesis
    proof (cases "key a < key z")
      case True
      with Some Cons.prems have "y = z" by simp
      with ih True show ?thesis by auto
    next
      case False
      with Some Cons.prems have "y = a" by simp
      with ih False show ?thesis by fastforce
    qed
  qed
qed

text \<open>
  Claim C9.  The cache row \<open>get_block_data\<close> looks at is a row of the block with the
  greatest \<open>fetched_at\<close> among the rows of the block, and there is none only when the
  block has no row; it has expired when it has an expiry time that lies before \<open>now\<close>.
  When that row exists and has not expired, \<open>get_block_data\<close> returns its payload
  marked \<open>cached\<close> and leaves the whole state as it was, so the Executor is not run.
  When there is no row or the latest has expired, it does what \<open>refresh_block_data\<close>
  does and marks the payload as not cached.  The refresh route does what
  \<open>refresh_block_data\<close> does whatever the cache holds: for a block with its current
  version in the store, the Executor is run on that version.
\<close>

theorem get_block_data_serves_fresh_cache:
  "(latest_cached w bid = None \<longleftrightarrow> (\<forall>r \<in> set (data_cache w). bd_block_id r \<noteq> bid)) \<and>
   (latest_cached w bid = Some row \<longrightarrow>
      row \<in> set (data_cache w) \<and> bd_block_id row = bid \<and>
      (\<forall>r \<in> set (data_cache w). bd_block_id r = bid \<longrightarrow> fetched_at r \<le> fetched_at row)) \<and>
   (expired now row \<longleftrightarrow> (\<exists>t. expires_at row = Some t \<and> t < now)) \<and>
   (latest_cached w bid = Some row \<and> \<not> expired now row \<longrightarrow>
      get_block_data env now w bid =
        (Inr \<lparr>reply_data = bd_data row, cached = True, reply_time = fetched_at row\<rparr>, w)) \<and>
   (latest_cached w bid = None \<or> (\<exists>r. latest_cached w bid = Some r \<and> expired now r) \<longrightarrow>
      snd (get_block_data env now w bid) = snd (refresh_block_data env now w bid) \<and>
      fst (get_block_data env now w bid) =
        (case fst (refresh_block_data env now w bid) of
           Inr data \<Rightarrow> Inr \<lparr>reply_data = data, cached = False, reply_time = now\<rparr>
         | Inl e \<Rightarrow> Inl e)) \<and>
   (find_block w bid = Some block \<and> find_version w bid (current_version block) = Some current \<longrightarrow>
      snd (refresh_block env now w bid) = snd (refresh_block_data env now w bid) \<and>
      (\<exists>xs. exec_history (snd (refresh_block env now w bid)) =
              exec_history w @
                (bid, current_version block,
                 \<not> isl (classify_run env (child_run env (length (exec_history w))))) # xs))"
proof (intro conjI impI; (elim conjE)?)
  show "latest_cached w bid = None \<longleftrightarrow> (\<forall>r \<in> set (data_cache w). bd_block_id r \<noteq> bid)"
    by (simp add: latest_cached_def latest_by_None filter_empty_conv)
next
  assume "latest_cached w bid = Some row"
  then have g: "row \<in> set (filter (\<lambda>d. bd_block_id d = bid) (data_cache w)) \<and>
      (\<forall>r \<in> set (filter (\<lambda>d. bd_block_id d = bid) (data_cache w)). fetched_at r \<le> fetched_at row)"
    unfolding latest_cached_def by (rule latest_by_greatest)
  from g show "row \<in> set (data_cache w)" by simp
  from g show "bd_block_id row = bid" by simp
  from g show "\<forall>r \<in> set (data_cache w). bd_block_id r = bid \<longrightarrow> fetched_at r \<le> fetched_at row"
    by simp
next
  show "expired now row \<longleftrightarrow> (\<exists>t. expires_at row = Some t \<and> t < now)"
    by (simp add: expired_def split: option.splits)
next
  assume "latest_cached w bid = Some row" "\<not> expired now row"
  then show "get_block_data env now w bid =
        (Inr \<lparr>reply_data = bd_data row, cached = True, reply_time = fetched_at row\<rparr>, w)"
    by (simp add: get_block_data_def)
next
  assume a: "latest_cached w bid = None \<or> (\<exists>r. latest_cached w bid = Some r \<and> expired now r)"
  obtain res w' where r: "refresh_block_data env now w bid = (res, w')"
    by (cases "refresh_block_data env now w bid")
  from a r show "snd (get_block_data env now w bid) = snd (refresh_block_data env now w bid)"
    by (cases res) (auto simp: get_block_data_def)
  from a r show "fst (get_block_data env now w bid) =
        (case fst (refresh_block_data env now w bid) of
           Inr data \<Rightarrow> Inr \<lparr>reply_data = data, cached = False, reply_time = now\<rparr>
         | Inl e \<Rightarrow> Inl e)"
    by (cases res) (auto simp: get_block_data_def)
next
  assume a: "find_block w bid = Some block" "find_version w bid (current_version block) = Some current"
  obtain res w' where r: "refresh_block_data env now w bid = (res, w')"
    by (cases "refresh_block_data env now w bid")
  show s: "snd (refresh_block env now w bid) = snd (refresh_block_data env now w bid)"
    using r by (cases res; cases "projl res") (simp_all add: refresh_block_def)
  show "\<exists>xs. exec_history (snd (refresh_block env now w bid)) =
              exec_history w @
                (bid, current_version block,
                 \<not> isl (classify_run env (child_run env (length (exec_history w))))) # xs"
    unfolding s using a by (rule refresh_runs_current_version)
qed

theorem get_block_data_serves_fresh_cache_witness:
  "latest_cached cached_world 1 =
     Some \<lparr>bd_block_id = 1, bd_data = ''{}'', fetched_at = 50, expires_at = Some 3650\<rparr> \<and>
   get_block_data hang_env 100 cached_world 1 =
     (Inr \<lparr>reply_data = ''{}'', cached = True, reply_time = 50\<rparr>, cached_world) \<and>
   snd (get_block_data hang_env 4000 cached_world 1) =
     snd (refresh_block_data hang_env 4000 cached_world 1) \<and>
   (\<exists>xs. exec_history (snd (refresh_block hang_env 100 cached_world 1)) = (1, 1, False) # xs)"
proof -
  let ?row = "\<lparr>bd_block_id = 1, bd_data = ''{}'', fetched_at = 50, expires_at = Some 3650\<rparr>"
  have c: "latest_cached cached_world 1 = Some ?row"
    by (simp add: latest_cached_def cached_world_def)
  have e1: "\<not> expired 100 ?row" and e2: "expired 4000 ?row"
    by (simp_all add: expired_def)
  have b: "find_block cached_world 1 = Some (sample_block 1 ''error'')"
    by (simp add: find_block_def cached_world_def broken_world_def sample_block_def)
  have v: "find_version cached_world 1 (current_version (sample_block 1 ''error''))
             = Some (sample_version 1 1)"
    by (simp add: find_version_def cached_world_def broken_world_def sample_version_def
        sample_block_def)
  have h: "exec_history cached_world = []"
    by (simp add: cached_world_def broken_world_def empty_world_def)
  have k: "classify_run hang_env (child_run hang_env 0) = Inl (Exception ''Block execution timed out'')"
    by (simp add: classify_run_def hang_env_def)
  from get_block_data_serves_fresh_cache[of cached_world 1 ?row 100 hang_env
      "sample_block 1 ''error''" "sample_version 1 1"]
    get_block_data_serves_fresh_cache[of cached_world 1 ?row 4000 hang_env
      "sample_block 1 ''error''" "sample_version 1 1"]
    c e1 e2 b v
  show ?thesis by (auto simp: h k sample_block_def)
qed

section \<open>Artifact retention\<close>

text \<open>
  Claim C7.  The claim says that after more than five successful versions of a block
  exactly five version directories remain.  \<open>execute_block\<close> creates the directory of
  every version it runs, and no operation of the service calls
  \<open>cleanup_old_versions\<close>: after a creation and five successful updates of one block
  the six directories \<open>v1\<close> to \<open>v6\<close> are all on disk.  Called by hand with the default
  of five, and every removal succeeding, \<open>cleanup_old_versions\<close> would leave \<open>v2\<close> to
  \<open>v6\<close>.
\<close>

theorem six_versions_leave_six_directories:
  "exec_history (run ok_env six_versions empty_world) =
     [(1, 1, True), (1, 2, True), (1, 3, True), (1, 4, True), (1, 5, True), (1, 6, True)] \<and>
   dirs (run ok_env six_versions empty_world) =
     [(1, 1), (1, 2), (1, 3), (1, 4), (1, 5), (1, 6)] \<and>
   dirs (cleanup_old_versions (\<lambda>b v. True) (run ok_env six_versions empty_world) 1 5) =
     [(1, 2), (1, 3), (1, 4), (1, 5), (1, 6)]"
  by code_simp

section \<open>Version numbers\<close>

text \<open>
  Claim C4, as amended.  Along every sequence of operations from the empty store, the
  version numbers of a block never decrease along its rows and the first is 1.
  \<open>create_block\<close> numbers its row 1; \<open>update_block\<close> and \<open>heal_block\<close> number theirs
  \<open>current_version + 1\<close>, whatever numbers the block already has.
\<close>

theorem version_numbers_never_decrease:
  "sorted (version_numbers (run env ops empty_world) bid) \<and>
   (version_numbers (run env ops empty_world) bid \<noteq> [] \<longrightarrow>
      hd (version_numbers (run env ops empty_world) bid) = 1) \<and>
   (oracle_reply env (oracle_calls w) = Inr content \<longrightarrow>
      versions (snd (create_block env now w prompt title_arg interval)) =
        versions w @ [first_version (next_block_id w) content] \<and>
      bv_version (first_version (next_block_id w) content) = 1) \<and>
   (find_block w bid = Some block \<and> oracle_reply env (oracle_calls w) = Inr content \<longrightarrow>
      versions (snd (update_block env now w bid prompt)) =
        versions w @ [updated_version block content] \<and>
      bv_version (updated_version block content) = current_version block + 1) \<and>
   (find_block w bid = Some block \<and> find_version w bid (current_version block) = Some current \<and>
    latest_error w bid = Some latest \<and> oracle_reply env (oracle_calls w) = Inr content \<longrightarrow>
      versions (snd (heal_block env now w bid)) = versions w @ [healed_version block content] \<and>
      bv_version (healed_version block content) = current_version block + 1)"
proof (intro conjI impI; (elim conjE)?)
  let ?w = "run env ops empty_world"
  have inv: "store_inv ?w" by (rule store_inv_run[OF store_inv_empty])
  show "sorted (version_numbers ?w bid)" using inv by (simp add: store_inv_def)
  assume ne: "version_numbers ?w bid \<noteq> []"
  then obtain v where "v \<in> set (versions ?w)" "bv_block_id v = bid"
    by (auto simp: version_numbers_def filter_empty_conv)
  with inv obtain b where "find_block ?w bid = Some b" by (auto simp: store_inv_def)
  with inv show "hd (version_numbers ?w bid) = 1" by (simp add: store_inv_def)
next
  assume "oracle_reply env (oracle_calls w) = Inr content"
  then show "versions (snd (create_block env now w prompt title_arg interval)) =
        versions w @ [first_version (next_block_id w) content]"
    by (rule create_block_runs(3))
  show "bv_version (first_version (next_block_id w) content) = 1"
    by (simp add: first_version_def)
next
  assume a: "find_block w bid = Some block" "oracle_reply env (oracle_calls w) = Inr content"
  show "versions (snd (update_block env now w bid prompt)) = versions w @ [updated_version block content]"
    using update_block_run_fails(3)[OF a] update_block_run_succeeds(3)[OF a]
    by (cases "classify_run env (child_run env (length (exec_history w)))") simp_all
  show "bv_version (updated_version block content) = current_version block + 1"
    by (simp add: updated_version_def)
next
  assume a: "find_block w bid = Some block" "find_version w bid (current_version block) = Some current"
    "latest_error w bid = Some latest" "oracle_reply env (oracle_calls w) = Inr content"
  show "versions (snd (heal_block env now w bid)) = versions w @ [healed_version block content]"
    using heal_block_run_fails(3)[OF a] heal_block_run_succeeds(3)[OF a]
    by (cases "classify_run env (child_run env (length (exec_history w)))") simp_all
  show "bv_version (healed_version block content) = current_version block + 1"
    by (simp add: healed_version_def)
qed

theorem version_numbers_never_decrease_witness:
  "version_numbers (run flaky_env two_failed_updates empty_world) 1 \<noteq> [] \<and>
   sorted (version_numbers (run flaky_env two_failed_updates empty_world) 1) \<and>
   hd (version_numbers (run flaky_env two_failed_updates empty_world) 1) = 1 \<and>
   find_block broken_world 1 = Some (sample_block 1 ''error'') \<and>
   versions (snd (create_block flaky_env 10 broken_world ''p'' None 3600)) =
     versions broken_world @ [first_version (next_block_id broken_world) sample_reply] \<and>
   versions (snd (update_block flaky_env 10 broken_world 1 ''p'')) =
     versions broken_world @ [updated_version (sample_block 1 ''error'') sample_reply] \<and>
   versions (snd (heal_block flaky_env 10 broken_world 1)) =
     versions broken_world @ [healed_version (sample_block 1 ''error'') sample_reply] \<and>
   bv_version (healed_version (sample_block 1 ''error'') sample_reply) = 2"
proof -
  have n: "version_numbers (run flaky_env two_failed_updates empty_world) 1 = [1, 2, 2]"
    by code_simp
  have b: "find_block broken_world 1 = Some (sample_block 1 ''error'')"
    by (simp add: find_block_def broken_world_def sample_block_def)
  have v: "find_version broken_world 1 (current_version (sample_block 1 ''error''))
             = Some (sample_version 1 1)"
    by (simp add: find_version_def broken_world_def sample_version_def sample_block_def)
  have l: "latest_error broken_world 1 = Some (fail_log 1 1 ''fetch'' (Exception ''boom'') 0)"
    by (simp add: latest_error_def broken_world_def fail_log_def)
  have r: "oracle_reply flaky_env (oracle_calls broken_world) = Inr sample_reply"
    by (simp add: flaky_env_def)
  have n': "version_numbers (run flaky_env two_failed_updates empty_world) (Suc 0) = [1, 2, 2]"
    using n by simp
  have c: "current_version (sample_block (Suc 0) ''error'') = Suc 0"
    by (simp add: sample_block_def)
  from version_numbers_never_decrease[where env = flaky_env and ops = two_failed_updates
      and bid = 1 and w = broken_world and content = sample_reply and now = 10
      and prompt = "''p''" and title_arg = None and interval = 3600
      and block = "sample_block 1 ''error''" and current = "sample_version 1 1"
      and latest = "fail_log 1 1 ''fetch'' (Exception ''boom'') 0"]
    b v l r
  show ?thesis by (simp add: n' c)
qed

text \<open>
  The claim says the number is one above the highest in use, so that the numbers
  strictly increase.  After an update whose run failed, \<open>current_version\<close> is
  unchanged and the next update uses the same number again: the rows of the block
  are numbered 1, 2, 2.
\<close>

theorem failed_update_repeats_version_number:
  "version_numbers (run flaky_env two_failed_updates empty_world) 1 = [1, 2, 2] \<and>
   \<not> sorted_wrt (<) (version_numbers (run flaky_env two_failed_updates empty_world) 1)"
proof -
  have "version_numbers (run flaky_env two_failed_updates empty_world) 1 = [1, 2, 2]"
    by code_simp
  then show ?thesis by simp
qed

section \<open>When \<open>current_version\<close> changes\<close>

lemma version_moves_step:
  "version_moves (case opn of Update x p \<Rightarrow> x | Heal x \<Rightarrow> x | RefreshData x \<Rightarrow> x
                   | GetData x \<Rightarrow> x | _ \<Rightarrow> t) w (step env now opn w)"
  by (cases opn)
     (simp_all add: version_moves_create_block version_moves_update_block version_moves_heal_block
        version_moves_refresh_block_data version_moves_get_block_data version_moves_delete_block
        version_moves_update_block_layout)

text \<open>A refresh leaves the blocks as they are unless it starts a heal attempt.\<close>

lemma refresh_blocks_or_attempt:
  "blocks (snd (refresh_block_data env now w bid)) = blocks w \<or>
   auto_heals (snd (refresh_block_data env now w bid)) = auto_heals w @ [(bid, now)]"
proof (cases "find_block w bid")
  case None
  then show ?thesis by (simp add: refresh_no_block)
next
  case (Some block)
  show ?thesis
  proof (cases "find_version w bid (current_version block)")
    case None
    with Some show ?thesis by (simp add: refresh_no_version)
  next
    case v: (Some current)
    show ?thesis
    proof (cases "fst (fetch_block_data env now w block current)")
      case (Inr row)
      show ?thesis using refresh_run_ok(2)[OF Some v Inr] by simp
    next
      case (Inl e)
      show ?thesis
      proof (cases "recent_errors (after_failed_run env now w block current e) bid now \<le> 1")
        case False
        then have "1 < recent_errors (after_failed_run env now w block current e) bid now" by simp
        from refresh_run_fails_throttled[OF Some v Inl this]
        show ?thesis by (simp add: after_failed_run_frame)
      next
        case True
        from refresh_heals_and_retries[OF Some v Inl True]
        obtain w3 b3 c3 where ah: "auto_heals w3 = auto_heals w @ [(bid, now)]"
          and eq: "refresh_block_data env now w bid =
             (case refresh_once env now w3 b3 c3 of
                (Inr data, w4) \<Rightarrow> (Inr data, w4)
              | (Inl x, w4) \<Rightarrow> (Inl e, w4))"
          by blast
        have "snd (refresh_block_data env now w bid) = snd (refresh_once env now w3 b3 c3)"
          unfolding eq
          by (cases "refresh_once env now w3 b3 c3"; cases "fst (refresh_once env now w3 b3 c3)")
             simp_all
        then show ?thesis by (simp add: refresh_once_frame ah)
      qed
    qed
  qed
qed

lemma update_block_error_keeps_version:
  assumes fb: "find_block w bid = Some b"
    and fb': "find_block (snd (update_block env now w bid prompt)) bid = Some b'"
    and st: "status b' = ''error''"
  shows "current_version b' = current_version b"
proof -
  have id: "block_id b = bid" using fb by (rule find_block_id)
  show ?thesis
  proof (cases "oracle_reply env (oracle_calls w)")
    case (Inl m)
    show ?thesis using fb fb' by (simp add: update_block_oracle_fails[OF fb Inl] find_block_def)
  next
    case (Inr content)
    show ?thesis
    proof (cases "classify_run env (child_run env (length (exec_history w)))")
      case (Inl e)
      note h = update_block_run_fails[OF fb Inr Inl, of now prompt]
      show ?thesis
        using find_block_replace[OF fb _ h(2)[unfolded id], of bid] fb' id by simp
    next
      case r: (Inr data)
      note h = update_block_run_succeeds[OF fb Inr r, of now prompt]
      show ?thesis
        using find_block_replace[OF fb _ h(2)[unfolded id], of bid] fb' id st by simp
    qed
  qed
qed

lemma heal_block_error_keeps_version:
  assumes fb: "find_block w bid = Some b"
    and fb': "find_block (snd (heal_block env now w bid)) bid = Some b'"
    and st: "status b' = ''error''"
  shows "current_version b' = current_version b"
proof -
  have id: "block_id b = bid" using fb by (rule find_block_id)
  show ?thesis
  proof (cases "find_version w bid (current_version b)")
    case None
    show ?thesis using fb fb' by (simp add: heal_block_no_version[OF fb None])
  next
    case v: (Some current)
    show ?thesis
    proof (cases "latest_error w bid")
      case None
      show ?thesis using fb fb' by (simp add: heal_block_no_error[OF fb None])
    next
      case l: (Some latest)
      show ?thesis
      proof (cases "oracle_reply env (oracle_calls w)")
        case (Inl m)
        show ?thesis
          using fb fb' by (simp add: heal_block_oracle_fails[OF fb v l Inl] find_block_def)
      next
        case (Inr content)
        show ?thesis
        proof (cases "classify_run env (child_run env (length (exec_history w)))")
          case (Inl e)
          note h = heal_block_run_fails[OF fb v l Inr Inl, of now]
          show ?thesis using find_block_frame[OF h(2), of bid] fb fb' by simp
        next
          case r: (Inr data)
          note h = heal_block_run_succeeds[OF fb v l Inr r, of now]
          show ?thesis
            using find_block_replace[OF fb _ h(2)[unfolded id], of bid] fb' id st by simp
        qed
      qed
    qed
  qed
qed

text \<open>
  Claim C3.  Take any operation (creation, update, heal, refresh, cache-aware read,
  deletion, layout update) and any block of the store.  The block is still in the
  store afterwards.  If its \<open>current_version\<close> has changed, then the Executor ran the
  new current version with success during the operation, and the operation was an
  update or a heal of that block, or a refresh of that block that started a heal.
  (A creation gives the new block its first \<open>current_version\<close>, 1, and leaves the
  blocks of the store alone.)  If an update or heal of the block leaves it with
  status \<open>error\<close>, its \<open>current_version\<close> is the one from before the call.
\<close>

theorem current_version_moves_only_on_success:
  "find_block w bid = Some b \<longrightarrow>
     (\<exists>b'. find_block (step env now opn w) bid = Some b' \<and>
        (current_version b' \<noteq> current_version b \<longrightarrow>
           (bid, current_version b', True)
             \<in> set (drop (length (exec_history w)) (exec_history (step env now opn w))) \<and>
           ((\<exists>p. opn = Update bid p) \<or> opn = Heal bid \<or>
            ((opn = RefreshData bid \<or> opn = GetData bid) \<and>
             auto_heals (step env now opn w) \<noteq> auto_heals w))) \<and>
        (((\<exists>p. opn = Update bid p) \<or> opn = Heal bid) \<and> status b' = ''error'' \<longrightarrow>
           current_version b' = current_version b))"
proof
  assume fb: "find_block w bid = Some b"
  let ?w' = "step env now opn w"
  let ?t = "case opn of Update x p \<Rightarrow> x | Heal x \<Rightarrow> x | RefreshData x \<Rightarrow> x
                   | GetData x \<Rightarrow> x | _ \<Rightarrow> Suc bid"
  from version_moves_step[where opn = opn and t = "Suc bid" and w = w and env = env and now = now] fb
  obtain b' where b': "find_block ?w' bid = Some b'"
    and mv: "current_version b' \<noteq> current_version b \<Longrightarrow>
               bid = ?t \<and> (bid, current_version b', True)
                 \<in> set (drop (length (exec_history w)) (exec_history ?w'))"
    unfolding version_moves_def by blast
  have which: "(\<exists>p. opn = Update bid p) \<or> opn = Heal bid \<or>
            ((opn = RefreshData bid \<or> opn = GetData bid) \<and> auto_heals ?w' \<noteq> auto_heals w)"
    if ne: "current_version b' \<noteq> current_version b"
  proof (cases opn)
    case (RefreshData x)
    with mv[OF ne] have x: "x = bid" by simp
    have "blocks ?w' \<noteq> blocks w" using fb b' ne by (auto simp: find_block_def)
    then show ?thesis
      using refresh_blocks_or_attempt[of env now w bid] RefreshData x by auto
  next
    case (GetData x)
    with mv[OF ne] have x: "x = bid" by simp
    have nb: "blocks ?w' \<noteq> blocks w" using fb b' ne by (auto simp: find_block_def)
    then have "?w' = snd (refresh_block_data env now w bid)"
      using snd_get_block_data[of env now w bid] GetData x by auto
    then show ?thesis
      using refresh_blocks_or_attempt[of env now w bid] nb GetData x by auto
  qed (use mv[OF ne] in auto)
  have err: "current_version b' = current_version b"
    if "(\<exists>p. opn = Update bid p) \<or> opn = Heal bid" and "status b' = ''error''"
    using that fb b' update_block_error_keeps_version[of w bid b env now _ b']
      heal_block_error_keeps_version[of w bid b env now b']
    by auto
  show "\<exists>b'. find_block ?w' bid = Some b' \<and>
        (current_version b' \<noteq> current_version b \<longrightarrow>
           (bid, current_version b', True)
             \<in> set (drop (length (exec_history w)) (exec_history ?w')) \<and>
           ((\<exists>p. opn = Update bid p) \<or> opn = Heal bid \<or>
            ((opn = RefreshData bid \<or> opn = GetData bid) \<and> auto_heals ?w' \<noteq> auto_heals w))) \<and>
        (((\<exists>p. opn = Update bid p) \<or> opn = Heal bid) \<and> status b' = ''error'' \<longrightarrow>
           current_version b' = current_version b)"
    using b' mv which err by blast
qed

theorem current_version_moves_only_on_success_witness:
  "find_block broken_world 1 = Some (sample_block 1 ''error'') \<and>
   (\<exists>b'. find_block (step ok_env 10 (Update 1 ''a'') broken_world) 1 = Some b' \<and>
         current_version b' = 2 \<and> status b' = ''active'' \<and>
         (1, 2, True) \<in> set (drop (length (exec_history broken_world))
                                (exec_history (step ok_env 10 (Update 1 ''a'') broken_world))))"
proof -
  have b: "find_block broken_world 1 = Some (sample_block 1 ''error'')"
    by (simp add: find_block_def broken_world_def sample_block_def)
  have s: "find_block (step ok_env 10 (Update 1 ''a'') broken_world) 1 =
             Some ((sample_block 1 ''error'')\<lparr>current_version := 2, status := ''active'',
                                               updated_at := 10\<rparr>)"
    by code_simp
  have c: "current_version (sample_block 1 ''error'') = 1" by (simp add: sample_block_def)
  from current_version_moves_only_on_success[of broken_world 1 "sample_block 1 ''error''"
      ok_env 10 "Update 1 ''a''"] b
  show ?thesis unfolding s by (simp add: sample_block_def)
qed

section \<open>The healing throttle\<close>

lemma refresh_once_logs:
  "\<exists>l. logs (snd (refresh_once env now w block current)) = logs w @ [l]"
  by (cases "fst (fetch_block_data env now w block current)")
     (simp_all add: refresh_once_eq Let_def after_failed_run_eq logs_execute_block)

lemma recent_errors_after_failed_run:
  assumes "find_block w bid = Some block"
  shows "recent_errors (after_failed_run env now w block current e) bid now =
           Suc (length (filter (\<lambda>l. el_block_id l = bid \<and> \<not> success l \<and> now - 3600 < created_at l)
                          (logs w)))"
proof -
  have id: "block_id block = bid" using assms by (rule find_block_id)
  show ?thesis
    by (simp add: recent_errors_def after_failed_run_frame fail_log_def id)
qed

text \<open>
  Claim C1.  Let the \<open>try\<close> of a refresh at time \<open>now\<close> fail with \<open>e\<close>: the run of
  the current version fails, or it succeeds and the expiry time of the payload is out
  of range.  The committed logs are then the old ones followed by a \<open>fetch\<close> failure
  log of the block.  What is counted are the failure logs of this block created after
  \<open>now - 3600\<close>, the new one included.
  When no earlier failure of the block is that recent (a count of 1), \<open>heal_block\<close>
  is called once and returns; the refresh then is one more pass through the \<open>try\<close>
  for the block's current version (\<open>refresh_once\<close>: no further heal), whose payload
  is returned if it succeeds and whose error is replaced by \<open>e\<close> if it fails; exactly
  one oracle request and one heal attempt were made.
  When some earlier failure of the block is that recent (a count above 1), \<open>e\<close> is
  raised at once: no oracle request, no heal attempt.
  Along every sequence of operations from the empty store, two heal attempts started
  by refreshes of the same block are at least 3600 seconds apart.
\<close>

theorem refresh_failure_heals_once_an_hour:
  "(find_block w bid = Some block \<and>
    find_version w bid (current_version block) = Some current \<and>
    (classify_run env (child_run env (length (exec_history w))) = Inl e \<or>
     (\<exists>data. classify_run env (child_run env (length (exec_history w))) = Inr data \<and>
             plus_seconds now (refresh_interval block) = Inl e)) \<longrightarrow>
      (\<exists>ls. logs (snd (refresh_block_data env now w bid)) =
              logs w @ \<lparr>el_block_id = bid, el_version = current_version block,
                         execution_type = ''fetch'', success = False,
                         error_message = Some (str_exn e), created_at = now\<rparr> # ls) \<and>
      recent_errors (after_failed_run env now w block current e) bid now =
        Suc (length (filter (\<lambda>l. el_block_id l = bid \<and> \<not> success l \<and> now - 3600 < created_at l)
                       (logs w))) \<and>
      ((\<forall>l \<in> set (logs w). el_block_id l = bid \<and> \<not> success l \<longrightarrow> created_at l \<le> now - 3600) \<longrightarrow>
         recent_errors (after_failed_run env now w block current e) bid now \<le> 1 \<and>
         (\<exists>hb w3 b3 c3.
            heal_block env now
              ((after_failed_run env now w block current e)
                 \<lparr>auto_heals := auto_heals w @ [(bid, now)]\<rparr>) bid = (Inr hb, w3) \<and>
            find_block w3 bid = Some b3 \<and>
            find_version w3 bid (current_version b3) = Some c3 \<and>
            refresh_block_data env now w bid =
              (case refresh_once env now w3 b3 c3 of
                 (Inr data, w4) \<Rightarrow> (Inr data, w4)
               | (Inl x, w4) \<Rightarrow> (Inl e, w4))) \<and>
         oracle_calls (snd (refresh_block_data env now w bid)) = Suc (oracle_calls w) \<and>
         auto_heals (snd (refresh_block_data env now w bid)) = auto_heals w @ [(bid, now)]) \<and>
      ((\<exists>l \<in> set (logs w). el_block_id l = bid \<and> \<not> success l \<and> now - 3600 < created_at l) \<longrightarrow>
         1 < recent_errors (after_failed_run env now w block current e) bid now \<and>
         refresh_block_data env now w bid = (Inl e, after_failed_run env now w block current e) \<and>
         oracle_calls (snd (refresh_block_data env now w bid)) = oracle_calls w \<and>
         auto_heals (snd (refresh_block_data env now w bid)) = auto_heals w)) \<and>
   sorted_wrt (\<lambda>x y. fst x = fst y \<longrightarrow> snd x + 3600 \<le> snd y)
     (auto_heals (run env ops empty_world))"
proof (intro conjI impI; (elim conjE)?)
  have "heal_inv (run env ops empty_world)" by (rule heal_inv_run[OF heal_inv_empty])
  then have "sorted_wrt spaced (auto_heals (run env ops empty_world))"
    by (simp add: heal_inv_def)
  then show "sorted_wrt (\<lambda>x y. fst x = fst y \<longrightarrow> snd x + 3600 \<le> snd y)
     (auto_heals (run env ops empty_world))"
    by (simp add: spaced_def[abs_def])
next
  assume fb: "find_block w bid = Some block"
    and fv: "find_version w bid (current_version block) = Some current"
    and fails: "classify_run env (child_run env (length (exec_history w))) = Inl e \<or>
       (\<exists>data. classify_run env (child_run env (length (exec_history w))) = Inr data \<and>
               plus_seconds now (refresh_interval block) = Inl e)"
  have cl: "fst (fetch_block_data env now w block current) = Inl e"
    using fails by (simp add: fetch_fails_iff)
  have id: "block_id block = bid" using fb by (rule find_block_id)
  let ?w2 = "after_failed_run env now w block current e"
  let ?l = "\<lparr>el_block_id = bid, el_version = current_version block,
              execution_type = ''fetch'', success = False,
              error_message = Some (str_exn e), created_at = now\<rparr>"
  let ?prior = "filter (\<lambda>l. el_block_id l = bid \<and> \<not> success l \<and> now - 3600 < created_at l) (logs w)"
  note fr = after_failed_run_frame[of env now w block current e]
  have l2: "logs ?w2 = logs w @ [?l]" by (simp add: fr fail_log_def id)
  show cnt: "recent_errors ?w2 bid now = Suc (length ?prior)"
    using fb by (rule recent_errors_after_failed_run)
  {
    assume old: "\<forall>l \<in> set (logs w). el_block_id l = bid \<and> \<not> success l \<longrightarrow> created_at l \<le> now - 3600"
    then have "?prior = []" by (auto simp: filter_empty_conv)
    then show le: "recent_errors ?w2 bid now \<le> 1" by (simp add: cnt)
    from refresh_heals_and_retries[OF fb fv cl le]
    obtain hb w3 b3 c3 where
      h: "heal_block env now (?w2\<lparr>auto_heals := auto_heals w @ [(bid, now)]\<rparr>) bid = (Inr hb, w3)"
      and b3: "find_block w3 bid = Some b3" "find_version w3 bid (current_version b3) = Some c3"
      and oc: "oracle_calls w3 = Suc (oracle_calls w)"
      and ah: "auto_heals w3 = auto_heals w @ [(bid, now)]"
      and eq: "refresh_block_data env now w bid =
                 (case refresh_once env now w3 b3 c3 of
                    (Inr data, w4) \<Rightarrow> (Inr data, w4)
                  | (Inl x, w4) \<Rightarrow> (Inl e, w4))"
      by blast
    have sn: "snd (refresh_block_data env now w bid) = snd (refresh_once env now w3 b3 c3)"
      unfolding eq
      by (cases "refresh_once env now w3 b3 c3"; cases "fst (refresh_once env now w3 b3 c3)")
         simp_all
    show "\<exists>hb w3 b3 c3.
            heal_block env now (?w2\<lparr>auto_heals := auto_heals w @ [(bid, now)]\<rparr>) bid = (Inr hb, w3) \<and>
            find_block w3 bid = Some b3 \<and>
            find_version w3 bid (current_version b3) = Some c3 \<and>
            refresh_block_data env now w bid =
              (case refresh_once env now w3 b3 c3 of
                 (Inr data, w4) \<Rightarrow> (Inr data, w4)
               | (Inl x, w4) \<Rightarrow> (Inl e, w4))"
      using h b3 eq by blast
    show "oracle_calls (snd (refresh_block_data env now w bid)) = Suc (oracle_calls w)"
      by (simp add: sn refresh_once_frame oc)
    show "auto_heals (snd (refresh_block_data env now w bid)) = auto_heals w @ [(bid, now)]"
      by (simp add: sn refresh_once_frame ah)
  }
  {
    assume recent: "\<exists>l \<in> set (logs w). el_block_id l = bid \<and> \<not> success l \<and> now - 3600 < created_at l"
    then have "?prior \<noteq> []" by (auto simp: filter_empty_conv)
    then have "0 < length ?prior" by simp
    then show gt: "1 < recent_errors ?w2 bid now" by (simp add: cnt)
    note t = refresh_run_fails_throttled[OF fb fv cl gt]
    show "refresh_block_data env now w bid = (Inl e, ?w2)" by (rule t)
    show "oracle_calls (snd (refresh_block_data env now w bid)) = oracle_calls w"
      by (simp add: t fr)
    show "auto_heals (snd (refresh_block_data env now w bid)) = auto_heals w"
      by (simp add: t fr)
  }
  show "\<exists>ls. logs (snd (refresh_block_data env now w bid)) = logs w @ ?l # ls"
  proof (cases "recent_errors ?w2 bid now \<le> 1")
    case False
    then have gt: "1 < recent_errors ?w2 bid now" by simp
    show ?thesis by (simp add: refresh_run_fails_throttled[OF fb fv cl gt] l2)
  next
    case True
    from refresh_heals_and_retries[OF fb fv cl True]
    obtain hb w3 b3 c3 where
      h: "heal_block env now (?w2\<lparr>auto_heals := auto_heals w @ [(bid, now)]\<rparr>) bid = (Inr hb, w3)"
      and eq: "refresh_block_data env now w bid =
                 (case refresh_once env now w3 b3 c3 of
                    (Inr data, w4) \<Rightarrow> (Inr data, w4)
                  | (Inl x, w4) \<Rightarrow> (Inl e, w4))"
      by blast
    have sn: "snd (refresh_block_data env now w bid) = snd (refresh_once env now w3 b3 c3)"
      unfolding eq
      by (cases "refresh_once env now w3 b3 c3"; cases "fst (refresh_once env now w3 b3 c3)")
         simp_all
    obtain ls where ls: "logs w3 = logs (?w2\<lparr>auto_heals := auto_heals w @ [(bid, now)]\<rparr>) @ ls"
      using logs_heal_block[of env now "?w2\<lparr>auto_heals := auto_heals w @ [(bid, now)]\<rparr>" bid] h
      by auto
    obtain l where "logs (snd (refresh_once env now w3 b3 c3)) = logs w3 @ [l]"
      using refresh_once_logs by blast
    then show ?thesis by (simp add: sn ls l2)
  qed
qed

theorem refresh_failure_heals_once_an_hour_witness:
  "find_block busy_world 1 = Some (sample_block 1 ''error'') \<and>
   classify_run hang_env (child_run hang_env (length (exec_history busy_world))) =
     Inl (Exception ''Block execution timed out'') \<and>
   refresh_block_data hang_env 100 busy_world 1 =
     (Inl (Exception ''Block execution timed out''),
      after_failed_run hang_env 100 busy_world (sample_block 1 ''error'')
        (sample_version 1 1) (Exception ''Block execution timed out'')) \<and>
   auto_heals (snd (refresh_block_data hang_env 100 busy_world 1)) = [] \<and>
   recent_errors (after_failed_run hang_env 5000 busy_world (sample_block 1 ''error'')
                    (sample_version 1 1) (Exception ''Block execution timed out'')) 1 5000 = 1 \<and>
   oracle_calls (snd (refresh_block_data hang_env 5000 busy_world 1)) = 1 \<and>
   auto_heals (snd (refresh_block_data hang_env 5000 busy_world 1)) = [(1, 5000)] \<and>
   find_block far_world 1 = Some far_block \<and>
   classify_run ok_env (child_run ok_env (length (exec_history far_world))) = Inr ''{}'' \<and>
   plus_seconds 100 (refresh_interval far_block) = Inl (OverflowError ''date value out of range'') \<and>
   (\<exists>ls. logs (snd (refresh_block_data ok_env 100 far_world 1)) =
           fail_log 1 1 ''fetch'' (OverflowError ''date value out of range'') 100 # ls) \<and>
   auto_heals (snd (refresh_block_data ok_env 100 far_world 1)) = [(1, 100)]"
proof -
  let ?e = "Exception ''Block execution timed out''"
  let ?o = "OverflowError ''date value out of range''"
  have b: "find_block busy_world 1 = Some (sample_block 1 ''error'')"
    by (simp add: find_block_def busy_world_def sample_block_def)
  have v: "find_version busy_world 1 (current_version (sample_block 1 ''error''))
             = Some (sample_version 1 1)"
    by (simp add: find_version_def busy_world_def sample_version_def sample_block_def)
  have c: "classify_run hang_env (child_run hang_env (length (exec_history busy_world))) = Inl ?e"
    by (simp add: classify_run_def hang_env_def)
  have recent: "\<exists>l \<in> set (logs busy_world). el_block_id l = 1 \<and> \<not> success l \<and> 100 - 3600 < created_at l"
    by (simp add: busy_world_def fail_log_def ok_log_def)
  have old: "\<forall>l \<in> set (logs busy_world). el_block_id l = 1 \<and> \<not> success l \<longrightarrow> created_at l \<le> 5000 - 3600"
    by (simp add: busy_world_def fail_log_def ok_log_def)
  have prior: "filter (\<lambda>l. el_block_id l = 1 \<and> \<not> success l \<and> 5000 - 3600 < created_at l)
                 (logs busy_world) = []"
    by (simp add: busy_world_def fail_log_def ok_log_def)
  have o: "oracle_calls busy_world = 0" "auto_heals busy_world = []"
    by (simp_all add: busy_world_def empty_world_def)
  from refresh_failure_heals_once_an_hour[where w = busy_world and bid = 1
      and block = "sample_block 1 ''error''" and current = "sample_version 1 1"
      and env = hang_env and e = ?e and now = 100 and ops = "[]"]
    b v c recent
  have t1: "refresh_block_data hang_env 100 busy_world 1 =
     (Inl ?e, after_failed_run hang_env 100 busy_world (sample_block 1 ''error'')
        (sample_version 1 1) ?e)"
    "auto_heals (snd (refresh_block_data hang_env 100 busy_world 1)) = []"
    by (simp_all add: o after_failed_run_frame)
  from refresh_failure_heals_once_an_hour[where w = busy_world and bid = 1
      and block = "sample_block 1 ''error''" and current = "sample_version 1 1"
      and env = hang_env and e = ?e and now = 5000 and ops = "[]"]
    b v c old prior
  have t2: "recent_errors (after_failed_run hang_env 5000 busy_world (sample_block 1 ''error'')
                    (sample_version 1 1) ?e) 1 5000 = 1"
    "oracle_calls (snd (refresh_block_data hang_env 5000 busy_world 1)) = 1"
    "auto_heals (snd (refresh_block_data hang_env 5000 busy_world 1)) = [(1, 5000)]"
    by (simp_all add: o)
  have fb: "find_block far_world 1 = Some far_block"
    by (simp add: find_block_def far_world_def far_block_def sample_block_def)
  have fv: "find_version far_world 1 (current_version far_block) = Some (sample_version 1 1)"
    by (simp add: find_version_def far_world_def far_block_def sample_version_def sample_block_def)
  have fc: "classify_run ok_env (child_run ok_env (length (exec_history far_world))) = Inr ''{}''"
    by (simp add: classify_run_def ok_env_def)
  have fp: "plus_seconds 100 (refresh_interval far_block) = Inl ?o"
    by (simp add: plus_seconds_def timedelta_def datetime_add_def far_block_def sample_block_def)
  have fl: "logs far_world = []" "auto_heals far_world = []"
    "current_version far_block = 1"
    by (simp_all add: far_world_def empty_world_def far_block_def sample_block_def)
  from refresh_failure_heals_once_an_hour[where w = far_world and bid = 1
      and block = far_block and current = "sample_version 1 1"
      and env = ok_env and e = ?o and now = 100 and ops = "[]"]
    fb fv fc fp
  have t3: "\<exists>ls. logs (snd (refresh_block_data ok_env 100 far_world 1)) =
           fail_log 1 1 ''fetch'' ?o 100 # ls"
    "auto_heals (snd (refresh_block_data ok_env 100 far_world 1)) = [(1, 100)]"
    by (simp_all add: fl fail_log_def)
  show ?thesis using b c t1 t2 fb fc fp t3 by simp
qed

end
